theory Spec2Isabelle
  imports Complex_Main
begin

section \<open>Python values, errors and dictionaries\<close>

text \<open>
  The scripts under \<open>src/scripts\<close> build a JSON-serialisable dictionary from a
  FontForge font.  Exceptions are values of type \<open>error\<close>; a computation that may
  raise returns \<open>error + 'a\<close> with \<open>Inl\<close> for the exception.

  \<open>NameError\<close> is what Python raises for an unbound name, \<open>ValueError\<close> and
  \<open>PermissionError\<close> are raised by the scripts themselves, \<open>NoSuchGlyph\<close> stands
  for the exception of the font library when \<open>font[name]\<close> finds no glyph of that
  name.  \<open>LookupError\<close> with its two built-in subclasses \<open>KeyError\<close> and
  \<open>IndexError\<close> is part of the type so that "fails with a LookupError" can be
  stated; \<open>KeyError\<close> is raised by the dictionary access of the name lookup and caught
  there.
\<close>

datatype error =
  NameError | ValueError | PermissionError | TypeError
  | LookupError | KeyError | IndexError | NoSuchGlyph

fun is_LookupError :: "error \<Rightarrow> bool" where
  "is_LookupError LookupError = True"
| "is_LookupError KeyError = True"
| "is_LookupError IndexError = True"
| "is_LookupError _ = False"

text \<open>
  The values the metadata dictionary is made of.  A number \<open>PNum q\<close> is the
  Python float (a finite double) whose exact value is the rational \<open>q\<close>; the
  sign of a zero is not kept, as Python's \<open>==\<close> does not tell \<open>-0.0\<close> from
  \<open>0.0\<close>.  The float written \<open>0.16\<close> is \<open>PNum (nearest_double (4 / 25))\<close>
  (see \<open>nearest_double\<close> and \<open>em_to_spaces\<close> below).
  A \<open>dict\<close> is an association list in insertion order with distinct keys.
\<close>

datatype pyval =
  PNone
  | PStr string
  | PNum rat
  | PTuple "pyval list"
  | PList "pyval list"
  | PDict "(string \<times> pyval) list"

type_synonym pydict = "(string \<times> pyval) list"

text \<open>Truth value of a Python object, as \<open>if value:\<close> tests it.\<close>

fun truthy :: "pyval \<Rightarrow> bool" where
  "truthy PNone = False"
| "truthy (PStr s) = (s \<noteq> [])"
| "truthy (PNum n) = (n \<noteq> 0)"
| "truthy (PTuple vs) = (vs \<noteq> [])"
| "truthy (PList vs) = (vs \<noteq> [])"
| "truthy (PDict d) = (d \<noteq> [])"

text \<open>
  \<open>d[k] = v\<close>: an existing key keeps its position and gets the new value, a new key
  is appended.
\<close>

fun dict_set :: "string \<Rightarrow> pyval \<Rightarrow> pydict \<Rightarrow> pydict" where
  "dict_set k v [] = [(k, v)]"
| "dict_set k v ((k', v') # d) =
     (if k' = k then (k', v) # d else (k', v') # dict_set k v d)"

definition dict_keys :: "pydict \<Rightarrow> string list" where
  "dict_keys d = map fst d"

definition dict_get :: "pydict \<Rightarrow> string \<Rightarrow> pyval option" where
  "dict_get d k = map_of d k"

section \<open>The font objects of the library\<close>

text \<open>
  What the scripts read from a \<open>fontforge.glyph\<close>: \<open>unicode\<close> (an integer, \<open>-1\<close>
  for an unencoded glyph), \<open>glyphname\<close>, \<open>anchorPoints\<close> (tuples
  \<open>(name, type, x, y)\<close>), \<open>boundingBox()\<close> (\<open>(xmin, ymin, xmax, ymax)\<close>) and
  \<open>getPosSub('*')\<close> (tuples \<open>(subtable, type, rest...)\<close>; for the types
  \<open>AltSubs\<close> and \<open>Ligature\<close> the rest is a sequence of glyph names, the rest of
  any other type is never read).
\<close>

type_synonym anchor = "string \<times> string \<times> rat \<times> rat"

type_synonym possub = "string \<times> string \<times> string list"

record glyph =
  unicode :: int
  glyphname :: string
  anchorPoints :: "anchor list"
  boundingBox :: "rat \<times> rat \<times> rat \<times> rat"
  getPosSub :: "possub list"

text \<open>
  A \<open>fontforge.font\<close>: its name, its version, its glyphs in the order
  \<open>font.glyphs()\<close> yields them, and the arguments of every \<open>font.save\<close> carried
  out so far (oldest first).
\<close>

record ffont =
  fontname :: string
  version :: string
  glyphs :: "glyph list"
  saved :: "string list list"

text \<open>\<open>font[glyphname]\<close> of the library.\<close>

definition font_getitem :: "ffont \<Rightarrow> string \<Rightarrow> error + glyph" where
  "font_getitem f name =
     (case find (\<lambda>g. glyphname g = name) (glyphs f) of
        None \<Rightarrow> Inl NoSuchGlyph
      | Some g \<Rightarrow> Inr g)"

definition font_save :: "string list \<Rightarrow> ffont \<Rightarrow> ffont" where
  "font_save args f = f\<lparr>saved := saved f @ [args]\<rparr>"

text \<open>The table \<open>codepoint_to_name\<close> read from \<open>glyphnames.json\<close>.\<close>

type_synonym name_table = "string \<rightharpoonup> string"

section \<open>\<open>ffsmufl.py\<close>: class \<open>SmuflFont\<close>\<close>

record SmuflFont =
  font :: ffont
  read_only :: bool
  engraving_defaults :: pyval

definition valid_anchor_names :: "string list" where
  "valid_anchor_names =
     [''stemUpSE'', ''stemUpNW'', ''stemDownNW'', ''stemDownSW'',
      ''splitStemUpSE'', ''splitStemUpSW'', ''splitStemDownNE'', ''splitStemDownNW'',
      ''cutOutNE'', ''cutOutSE'', ''cutOutSW'', ''cutOutNW'',
      ''numeralTop'', ''numeralBottom'',
      ''graceNoteSlashSW'', ''graceNoteSlashNE'', ''graceNoteSlashNW'', ''graceNoteSlashSE'',
      ''repeatOffset'', ''noteheadOrigin'', ''opticalCenter'']"

subsection \<open>\<open>format_codepoint\<close>\<close>

text \<open>
  Python's \<open>hex\<close>: sign, \<open>0x\<close>, lower-case digits without padding.
\<close>

definition hex_digit :: "nat \<Rightarrow> char" where
  "hex_digit d = ''0123456789abcdef'' ! d"

fun hex_nat :: "nat \<Rightarrow> string" where
  "hex_nat n = (if n < 16 then [hex_digit n] else hex_nat (n div 16) @ [hex_digit (n mod 16)])"

declare hex_nat.simps [simp del]

definition hex :: "int \<Rightarrow> string" where
  "hex i = (if i < 0 then ''-0x'' @ hex_nat (nat (- i)) else ''0x'' @ hex_nat (nat i))"

text \<open>
  \<open>str.upper\<close> on the characters \<open>hex\<close> can produce (ASCII): a lower-case letter
  becomes its upper-case letter, every other character stays.
\<close>

definition upper_char :: "char \<Rightarrow> char" where
  "upper_char c =
     (case map_of (zip ''abcdefghijklmnopqrstuvwxyz'' ''ABCDEFGHIJKLMNOPQRSTUVWXYZ'') c of
        Some C \<Rightarrow> C
      | None \<Rightarrow> c)"

definition upper :: "string \<Rightarrow> string" where
  "upper s = map upper_char s"

definition format_codepoint :: "int \<Rightarrow> string" where
  "format_codepoint u = ''U+'' @ upper (drop 2 (hex u))"

subsection \<open>\<open>canonical_glyphname\<close> and \<open>em_to_spaces\<close>\<close>

text \<open>
  \<open>SmuflFont.canonical_glyphname(unicode_, fallback=True)\<close> is a static method.  On a
  \<open>KeyError\<close> with \<open>fallback\<close> set it evaluates \<open>glyph.glyphname\<close>, but no name
  \<open>glyph\<close> is bound in the method, in the module or among the built-ins, so Python
  raises \<open>NameError\<close> there.
\<close>

definition canonical_glyphname :: "name_table \<Rightarrow> int \<Rightarrow> bool \<Rightarrow> error + string" where
  "canonical_glyphname codepoint_to_name u fallback =
     (let codepoint = format_codepoint u in
      case codepoint_to_name codepoint of
        Some name \<Rightarrow> Inr name
      | None \<Rightarrow> if fallback then Inl NameError else Inl ValueError)"

text \<open>
  Floating point.  A coordinate is a finite IEEE double, read as the rational it is
  exactly equal to.  \<open>nearest_double q\<close> is the double nearest to \<open>q\<close>, a tie going
  to the even mantissa: mantissas have 53 bits, the least exponent is \<open>-1074\<close>
  (subnormal numbers), and no result of the scripts is large enough to overflow.
  \<open>bit_length\<close> is the number of binary digits of a natural number,
  \<open>binary_exponent q\<close> the integer \<open>e\<close> with \<open>2^e \<le> q < 2^(e+1)\<close> for \<open>q > 0\<close>.
\<close>

definition round_half_even :: "rat \<Rightarrow> int" where
  "round_half_even q =
     (let f = \<lfloor>q\<rfloor>; r = q - of_int f
      in if r < 1 / 2 then f else if 1 / 2 < r then f + 1 else if even f then f else f + 1)"

fun bit_length :: "nat \<Rightarrow> nat" where
  "bit_length n = (if n = 0 then 0 else Suc (bit_length (n div 2)))"

declare bit_length.simps [simp del]

definition pow2 :: "int \<Rightarrow> rat" where
  "pow2 e = (if 0 \<le> e then 2 ^ nat e else 1 / 2 ^ nat (- e))"

definition binary_exponent :: "rat \<Rightarrow> int" where
  "binary_exponent q =
     (case quotient_of q of (a, b) \<Rightarrow>
        (let e0 = int (bit_length (nat a)) - int (bit_length (nat b))
         in if pow2 e0 \<le> q then e0 else e0 - 1))"

definition nearest_double :: "rat \<Rightarrow> rat" where
  "nearest_double q =
     (if q = 0 then 0
      else (let e = max (binary_exponent \<bar>q\<bar> - 52) (- 1074);
                m = round_half_even (q / pow2 e)
            in of_int m * pow2 e))"

text \<open>
  \<open>x / y\<close> on floats is the double nearest to the quotient.  \<open>round(q, ndigits)\<close>
  rounds the exact value of the double \<open>q\<close> to \<open>ndigits\<close> decimal places, a tie
  going to the even digit, and returns the double nearest to that decimal number.
\<close>

definition float_div :: "rat \<Rightarrow> rat \<Rightarrow> rat" where
  "float_div x y = nearest_double (x / y)"

definition py_round :: "rat \<Rightarrow> nat \<Rightarrow> rat" where
  "py_round q ndigits =
     nearest_double (of_int (round_half_even (q * 10 ^ ndigits)) / 10 ^ ndigits)"

definition em_to_spaces :: "rat \<Rightarrow> rat" where
  "em_to_spaces em = py_round (float_div em 250) 3"

subsection \<open>\<open>__iter__\<close> and \<open>save\<close>\<close>

text \<open>
  \<open>SmuflFont.__iter__\<close> (and the property \<open>SmuflMetadata.characters\<close> of
  \<open>ff_smufl_metadata.py\<close>, the same generator expression).
\<close>

definition smufl_iter :: "ffont \<Rightarrow> glyph list" where
  "smufl_iter f = filter (\<lambda>char. 57344 \<le> unicode char \<and> unicode char \<le> 62463) (glyphs f)"

text \<open>
  \<open>SmuflFont.save(*args)\<close>: the result of the call (the exception raised, or
  \<open>None\<close>) and the state of the object afterwards.
\<close>

definition save :: "SmuflFont \<Rightarrow> string list \<Rightarrow> (error + unit) \<times> SmuflFont" where
  "save sf args =
     (if read_only sf \<and> args = [] then (Inl PermissionError, sf)
      else (Inr (), sf\<lparr>font := font_save args (font sf)\<rparr>))"

section \<open>The metadata tables\<close>

text \<open>
  The methods \<open>anchors\<close>, \<open>alternates\<close>, \<open>bounding_boxes\<close> and \<open>ligatures\<close> of
  \<open>_SmuflMetadata\<close> (\<open>ffsmufl.py\<close>) and of \<open>SmuflMetadata\<close> (\<open>ff-smufl.py\<close>) are the
  same text; the properties \<open>glyphsWithAnchors\<close>, \<open>glyphsWithAlternates\<close>,
  \<open>glyphBBoxes\<close> and \<open>ligatures\<close> of \<open>SmuflMetadata\<close> (\<open>ff_smufl_metadata.py\<close>)
  differ from them only in the function that resolves a glyph's name.  Each loop is
  therefore written once, over the resolving function \<open>res\<close>.
\<close>

type_synonym resolver = "glyph \<Rightarrow> error + string"

subsection \<open>Anchors\<close>

text \<open>
  The inner loop over \<open>char.anchorPoints\<close>, and \<open>char_anchors\<close> as the outer loop
  tests and stores it.
\<close>

fun char_anchors_loop :: "anchor list \<Rightarrow> pydict \<Rightarrow> pydict" where
  "char_anchors_loop [] char_anchors = char_anchors"
| "char_anchors_loop ((anchor_name, anchor_type, x, y) # rest) char_anchors =
     (if anchor_name \<in> set valid_anchor_names
      then char_anchors_loop rest
             (dict_set anchor_name (PTuple [PNum (em_to_spaces x), PNum (em_to_spaces y)])
                char_anchors)
      else char_anchors_loop rest char_anchors)"

definition char_anchors :: "glyph \<Rightarrow> pydict" where
  "char_anchors char = char_anchors_loop (anchorPoints char) []"

fun anchors_loop :: "resolver \<Rightarrow> glyph list \<Rightarrow> pydict \<Rightarrow> error + pydict" where
  "anchors_loop res [] all_anchors = Inr all_anchors"
| "anchors_loop res (char # chars) all_anchors =
     (if char_anchors char \<noteq> [] then
        (case res char of
           Inl e \<Rightarrow> Inl e
         | Inr char_name \<Rightarrow>
             anchors_loop res chars
               (dict_set char_name (PDict (char_anchors char)) all_anchors))
      else anchors_loop res chars all_anchors)"

subsection \<open>Alternates\<close>

definition is_AltSubs :: "possub \<Rightarrow> bool" where
  "is_AltSubs table = (fst (snd table) = ''AltSubs'')"

text \<open>
  The body of the loop over the substitute names of one rule: the glyph of that name,
  its code point string and its resolved name, as the record that is appended.
\<close>

definition alternate :: "resolver \<Rightarrow> ffont \<Rightarrow> string \<Rightarrow> error + pyval" where
  "alternate res f name =
     (case font_getitem f name of
        Inl e \<Rightarrow> Inl e
      | Inr substitute_char \<Rightarrow>
          (let codepoint = format_codepoint (unicode substitute_char) in
           case res substitute_char of
             Inl e \<Rightarrow> Inl e
           | Inr name' \<Rightarrow>
               Inr (PDict [(''codepoint'', PStr codepoint), (''name'', PStr name')])))"

fun substitutes_loop ::
  "resolver \<Rightarrow> ffont \<Rightarrow> string list \<Rightarrow> pyval list \<Rightarrow> error + pyval list" where
  "substitutes_loop res f [] char_alternates = Inr char_alternates"
| "substitutes_loop res f (name # names) char_alternates =
     (case alternate res f name of
        Inl e \<Rightarrow> Inl e
      | Inr record \<Rightarrow> substitutes_loop res f names (char_alternates @ [record]))"

fun altsubs_loop ::
  "resolver \<Rightarrow> ffont \<Rightarrow> possub list \<Rightarrow> pyval list \<Rightarrow> error + pyval list" where
  "altsubs_loop res f [] char_alternates = Inr char_alternates"
| "altsubs_loop res f ((subtable, kind, substitute_names) # tables) char_alternates =
     (case substitutes_loop res f substitute_names char_alternates of
        Inl e \<Rightarrow> Inl e
      | Inr char_alternates' \<Rightarrow> altsubs_loop res f tables char_alternates')"

definition char_alternates :: "resolver \<Rightarrow> ffont \<Rightarrow> glyph \<Rightarrow> error + pyval list" where
  "char_alternates res f char = altsubs_loop res f (filter is_AltSubs (getPosSub char)) []"

fun alternates_loop ::
  "resolver \<Rightarrow> ffont \<Rightarrow> glyph list \<Rightarrow> pydict \<Rightarrow> error + pydict" where
  "alternates_loop res f [] all_alternates = Inr all_alternates"
| "alternates_loop res f (char # chars) all_alternates =
     (case char_alternates res f char of
        Inl e \<Rightarrow> Inl e
      | Inr alts \<Rightarrow>
          if alts \<noteq> [] then
            (case res char of
               Inl e \<Rightarrow> Inl e
             | Inr char_name \<Rightarrow>
                 alternates_loop res f chars
                   (dict_set char_name (PDict [(''alternates'', PList alts)])
                      all_alternates))
          else alternates_loop res f chars all_alternates)"

subsection \<open>Bounding boxes\<close>

definition bounding_box :: "glyph \<Rightarrow> pyval" where
  "bounding_box char =
     (case boundingBox char of (xmin0, ymin0, xmax0, ymax0) \<Rightarrow>
        (let xmin = em_to_spaces xmin0; ymin = em_to_spaces ymin0;
             xmax = em_to_spaces xmax0; ymax = em_to_spaces ymax0
         in PDict [(''bBoxNE'', PTuple [PNum xmax, PNum ymax]),
                   (''bBoxSW'', PTuple [PNum xmin, PNum ymin])]))"

fun bounding_boxes_loop :: "resolver \<Rightarrow> glyph list \<Rightarrow> pydict \<Rightarrow> error + pydict" where
  "bounding_boxes_loop res [] all_bounding_boxes = Inr all_bounding_boxes"
| "bounding_boxes_loop res (char # chars) all_bounding_boxes =
     (case res char of
        Inl e \<Rightarrow> Inl e
      | Inr char_name \<Rightarrow>
          bounding_boxes_loop res chars
            (dict_set char_name (bounding_box char) all_bounding_boxes))"

subsection \<open>Ligatures\<close>

definition is_Ligature :: "possub \<Rightarrow> bool" where
  "is_Ligature table = (fst (snd table) = ''Ligature'')"

text \<open>The dictionary stored for one rule \<open>table\<close> of the glyph \<open>char\<close>.\<close>

definition ligature :: "glyph \<Rightarrow> possub \<Rightarrow> pyval" where
  "ligature char table =
     (let component_names = map PStr (snd (snd table))
      in PDict [(''codepoint'', PStr (format_codepoint (unicode char))),
                (''componentGlyphs'', PList component_names)])"

fun ligature_tables_loop :: "string \<Rightarrow> glyph \<Rightarrow> possub list \<Rightarrow> pydict \<Rightarrow> pydict" where
  "ligature_tables_loop char_name char [] all_ligatures = all_ligatures"
| "ligature_tables_loop char_name char (table # tables) all_ligatures =
     ligature_tables_loop char_name char tables
       (dict_set char_name (ligature char table) all_ligatures)"

definition ligature_rules :: "glyph \<Rightarrow> possub list" where
  "ligature_rules char = filter is_Ligature (getPosSub char)"

fun ligatures_loop :: "resolver \<Rightarrow> glyph list \<Rightarrow> pydict \<Rightarrow> error + pydict" where
  "ligatures_loop res [] all_ligatures = Inr all_ligatures"
| "ligatures_loop res (char # chars) all_ligatures =
     (case res char of
        Inl e \<Rightarrow> Inl e
      | Inr char_name \<Rightarrow>
          ligatures_loop res chars
            (ligature_tables_loop char_name char (ligature_rules char) all_ligatures))"

subsection \<open>Assembly\<close>

text \<open>
  The body the three \<open>asdict\<close> methods share: the two names, then each table under
  its key when it is true as a Python value; an exception of a table computation ends
  the call.
\<close>

definition put_if :: "string \<Rightarrow> pydict \<Rightarrow> pydict \<Rightarrow> pydict" where
  "put_if key table d = (if table \<noteq> [] then dict_set key (PDict table) d else d)"

definition asdict_body ::
  "string \<Rightarrow> string \<Rightarrow> pyval \<Rightarrow> error + pydict \<Rightarrow> error + pydict \<Rightarrow> error + pydict
     \<Rightarrow> error + pydict \<Rightarrow> error + pydict" where
  "asdict_body name vers defaults anchors_r alternates_r bounding_boxes_r ligatures_r =
     (let d = dict_set ''fontName'' (PStr name) [];
          d = dict_set ''fontVersion'' (PStr vers) d;
          d = (if truthy defaults then dict_set ''engravingDefaults'' defaults d else d)
      in case anchors_r of
           Inl e \<Rightarrow> Inl e
         | Inr anchors_t \<Rightarrow>
       (let d = put_if ''glyphsWithAnchors'' anchors_t d
        in case alternates_r of
             Inl e \<Rightarrow> Inl e
           | Inr alternates_t \<Rightarrow>
         (let d = put_if ''glyphsWithAlternates'' alternates_t d
          in case bounding_boxes_r of
               Inl e \<Rightarrow> Inl e
             | Inr bounding_boxes_t \<Rightarrow>
           (let d = put_if ''glyphBBoxes'' bounding_boxes_t d
            in case ligatures_r of
                 Inl e \<Rightarrow> Inl e
               | Inr ligatures_t \<Rightarrow> Inr (put_if ''ligatures'' ligatures_t d)))))"

section \<open>\<open>ffsmufl.py\<close>: class \<open>_SmuflMetadata\<close>\<close>

definition canonical :: "name_table \<Rightarrow> resolver" where
  "canonical tbl char = canonical_glyphname tbl (unicode char) True"

definition anchors :: "name_table \<Rightarrow> SmuflFont \<Rightarrow> error + pydict" where
  "anchors tbl sf = anchors_loop (canonical tbl) (smufl_iter (font sf)) []"

definition alternates :: "name_table \<Rightarrow> SmuflFont \<Rightarrow> error + pydict" where
  "alternates tbl sf = alternates_loop (canonical tbl) (font sf) (smufl_iter (font sf)) []"

definition bounding_boxes :: "name_table \<Rightarrow> SmuflFont \<Rightarrow> error + pydict" where
  "bounding_boxes tbl sf = bounding_boxes_loop (canonical tbl) (smufl_iter (font sf)) []"

definition ligatures :: "name_table \<Rightarrow> SmuflFont \<Rightarrow> error + pydict" where
  "ligatures tbl sf = ligatures_loop (canonical tbl) (smufl_iter (font sf)) []"

definition asdict :: "name_table \<Rightarrow> SmuflFont \<Rightarrow> error + pydict" where
  "asdict tbl sf =
     asdict_body (fontname (font sf)) (version (font sf)) (engraving_defaults sf)
       (anchors tbl sf) (alternates tbl sf) (bounding_boxes tbl sf) (ligatures tbl sf)"

section \<open>\<open>ff_smufl_metadata.py\<close>\<close>

text \<open>
  \<open>smufl_canonical_name(glyph, fallback=True)\<close> takes the glyph itself, so its
  fallback is the glyph's own name.  \<open>smufl_codepoint(glyph)\<close> is
  \<open>format_codepoint (unicode glyph)\<close>, \<open>to_spaces\<close> is \<open>em_to_spaces\<close> and
  \<open>SMUFL_ANCHOR_NAMES\<close> is \<open>valid_anchor_names\<close>.
\<close>

definition smufl_codepoint :: "glyph \<Rightarrow> string" where
  "smufl_codepoint g = format_codepoint (unicode g)"

definition smufl_canonical_name :: "name_table \<Rightarrow> glyph \<Rightarrow> bool \<Rightarrow> error + string" where
  "smufl_canonical_name SMUFL_CODEPOINT_TO_NAME g fallback =
     (let codepoint = smufl_codepoint g in
      case SMUFL_CODEPOINT_TO_NAME codepoint of
        Some name \<Rightarrow> Inr name
      | None \<Rightarrow> if fallback then Inr (glyphname g) else Inl ValueError)"

definition smufl_name :: "name_table \<Rightarrow> resolver" where
  "smufl_name tbl char = smufl_canonical_name tbl char True"

definition glyphsWithAnchors :: "name_table \<Rightarrow> ffont \<Rightarrow> error + pydict" where
  "glyphsWithAnchors tbl f = anchors_loop (smufl_name tbl) (smufl_iter f) []"

definition glyphsWithAlternates :: "name_table \<Rightarrow> ffont \<Rightarrow> error + pydict" where
  "glyphsWithAlternates tbl f = alternates_loop (smufl_name tbl) f (smufl_iter f) []"

definition glyphBBoxes :: "name_table \<Rightarrow> ffont \<Rightarrow> error + pydict" where
  "glyphBBoxes tbl f = bounding_boxes_loop (smufl_name tbl) (smufl_iter f) []"

definition ligatures_md :: "name_table \<Rightarrow> ffont \<Rightarrow> error + pydict" where
  "ligatures_md tbl f = ligatures_loop (smufl_name tbl) (smufl_iter f) []"

definition SmuflMetadata_asdict :: "name_table \<Rightarrow> ffont \<Rightarrow> pyval \<Rightarrow> error + pydict" where
  "SmuflMetadata_asdict tbl f engravingDefaults =
     asdict_body (fontname f) (version f) engravingDefaults
       (glyphsWithAnchors tbl f) (glyphsWithAlternates tbl f) (glyphBBoxes tbl f)
       (ligatures_md tbl f)"

section \<open>\<open>ff-smufl.py\<close>: class \<open>SmuflMetadata\<close>\<close>

text \<open>
  \<open>SmuflMetadata(font, engraving_defaults).asdict()\<close> of \<open>ff-smufl.py\<close>: the font is a
  \<open>SmuflFont\<close> of that file (the same fields, the same \<open>__iter__\<close> and the same
  \<open>canonical_glyphname\<close> as in \<open>ffsmufl.py\<close>), the defaults are the constructor's
  argument.
\<close>

definition script_asdict :: "name_table \<Rightarrow> SmuflFont \<Rightarrow> pyval \<Rightarrow> error + pydict" where
  "script_asdict tbl sf defaults =
     asdict_body (fontname (font sf)) (version (font sf)) defaults
       (anchors tbl sf) (alternates tbl sf) (bounding_boxes tbl sf) (ligatures tbl sf)"

section \<open>Reference notions of the specification\<close>

text \<open>A Unicode scalar value: a code point that is not a surrogate.\<close>

definition unicode_scalar :: "int \<Rightarrow> bool" where
  "unicode_scalar c = (0 \<le> c \<and> c \<le> 1114111 \<and> \<not> (55296 \<le> c \<and> c \<le> 57343))"

text \<open>
  The upper-case hexadecimal digits of a number, most significant first, without
  prefix and without padding.
\<close>

definition upper_digits :: string where
  "upper_digits = ''0123456789ABCDEF''"

fun upper_hex :: "nat \<Rightarrow> string" where
  "upper_hex n =
     (if n < 16 then [upper_digits ! n]
      else upper_hex (n div 16) @ [upper_digits ! (n mod 16)])"

declare upper_hex.simps [simp del]

text \<open>
  Parsing: the value of a hexadecimal digit, of a digit string (read from the left),
  and of a code point string \<open>U+\<close> followed by at least one digit.
\<close>

definition hex_value :: "char \<Rightarrow> nat option" where
  "hex_value c = map_of (zip upper_digits [0 ..< 16]) c"

fun parse_hex :: "string \<Rightarrow> nat \<Rightarrow> nat option" where
  "parse_hex [] acc = Some acc"
| "parse_hex (c # cs) acc =
     (case hex_value c of None \<Rightarrow> None | Some v \<Rightarrow> parse_hex cs (16 * acc + v))"

definition parse_codepoint :: "string \<Rightarrow> int option" where
  "parse_codepoint s =
     (if take 2 s = ''U+'' \<and> drop 2 s \<noteq> [] then map_option int (parse_hex (drop 2 s) 0)
      else None)"

section \<open>Notions used in the statements\<close>

text \<open>Storing a list of items one after the other.\<close>

definition dict_update :: "(string \<times> pyval) list \<Rightarrow> pydict \<Rightarrow> pydict" where
  "dict_update kvs d = fold (\<lambda>kv. dict_set (fst kv) (snd kv)) kvs d"

text \<open>The glyphs \<open>__iter__\<close> yields: those of the SMuFL range.\<close>

definition in_smufl_range :: "glyph \<Rightarrow> bool" where
  "in_smufl_range g = (57344 \<le> unicode g \<and> unicode g \<le> 62463)"

text \<open>
  The anchor points of a glyph with a recognized name, and the item stored for an
  anchor point.
\<close>

definition recognized_anchors :: "glyph \<Rightarrow> anchor list" where
  "recognized_anchors g = filter (\<lambda>a. fst a \<in> set valid_anchor_names) (anchorPoints g)"

definition anchor_item :: "anchor \<Rightarrow> string \<times> pyval" where
  "anchor_item a =
     (fst a, PTuple [PNum (em_to_spaces (fst (snd (snd a)))),
                     PNum (em_to_spaces (snd (snd (snd a))))])"

text \<open>The substitute names of the \<open>AltSubs\<close> rules of a glyph, in the order of the rules.\<close>

definition substitute_names :: "glyph \<Rightarrow> string list" where
  "substitute_names g = concat (map (\<lambda>table. snd (snd table)) (filter is_AltSubs (getPosSub g)))"

text \<open>The keys of the tables whose keys are glyph names, and the empty containers.\<close>

definition glyph_tables :: "string list" where
  "glyph_tables = [''glyphsWithAnchors'', ''glyphsWithAlternates'', ''glyphBBoxes'', ''ligatures'']"

fun empty_container :: "pyval \<Rightarrow> bool" where
  "empty_container (PDict d) = (d = [])"
| "empty_container (PList vs) = (vs = [])"
| "empty_container (PTuple vs) = (vs = [])"
| "empty_container (PStr s) = (s = [])"
| "empty_container _ = False"

section \<open>Example fonts\<close>

text \<open>
  A reference table that names code point 57344 \<open>noteheadBlack\<close> and nothing else,
  and a glyph at that code point with the anchor \<open>stemUpSE\<close> at \<open>(40, 100)\<close> and no
  lookup rules.
\<close>

definition example_table :: name_table where
  "example_table = [''U+E000'' \<mapsto> ''noteheadBlack'']"

definition notehead :: glyph where
  "notehead =
     \<lparr>unicode = 57344, glyphname = ''uniE000'',
      anchorPoints = [(''stemUpSE'', ''base'', 40, 100)],
      boundingBox = (0, - 125, 295, 125), getPosSub = []\<rparr>"

definition font_of :: "glyph list \<Rightarrow> ffont" where
  "font_of gs = \<lparr>fontname = ''Sebastian'', version = ''1.0'', glyphs = gs, saved = []\<rparr>"

definition smufl_font_of :: "glyph list \<Rightarrow> SmuflFont" where
  "smufl_font_of gs = \<lparr>font = font_of gs, read_only = True, engraving_defaults = PNone\<rparr>"

text \<open>The same glyph with a second anchor point of the same name.\<close>

definition notehead_two_anchors :: glyph where
  "notehead_two_anchors =
     notehead\<lparr>anchorPoints := [(''stemUpSE'', ''base'', 40, 100), (''stemUpSE'', ''base'', 80, 200)]\<rparr>"

text \<open>A second glyph at the same code point, with another name and another box.\<close>

definition notehead_wide :: glyph where
  "notehead_wide = notehead\<lparr>glyphname := ''uniE000.wide'', boundingBox := (0, - 125, 500, 125)\<rparr>"

text \<open>A glyph of the SMuFL range at a code point the table does not name.\<close>

definition custom_glyph :: glyph where
  "custom_glyph =
     \<lparr>unicode = 62463, glyphname = ''myGlyph'',
      anchorPoints = [(''stemUpSE'', ''base'', 40, 100)],
      boundingBox = (0, 0, 250, 250), getPosSub = []\<rparr>"

text \<open>
  The glyph \<open>notehead\<close> with one \<open>AltSubs\<close> rule, its substitute (outside the SMuFL
  range), and the glyph with an \<open>AltSubs\<close> rule that lists no substitute.
\<close>

definition notehead_with_alternate :: glyph where
  "notehead_with_alternate = notehead\<lparr>getPosSub := [(''ss01-1'', ''AltSubs'', [''uniF400''])]\<rparr>"

definition substitute_glyph :: glyph where
  "substitute_glyph =
     \<lparr>unicode = 62464, glyphname = ''uniF400'', anchorPoints = [],
      boundingBox = (0, - 100, 236, 100), getPosSub = []\<rparr>"

definition notehead_empty_rule :: glyph where
  "notehead_empty_rule = notehead\<lparr>getPosSub := [(''ss01-1'', ''AltSubs'', [])]\<rparr>"

text \<open>
  Two \<open>Ligature\<close> rules: on a glyph outside the SMuFL range, on \<open>notehead\<close>, and on
  a second glyph at the code point of \<open>notehead\<close>.
\<close>

definition fi_ligature :: glyph where
  "fi_ligature =
     \<lparr>unicode = 64257, glyphname = ''fi'', anchorPoints = [],
      boundingBox = (0, 0, 250, 250),
      getPosSub = [(''liga-1'', ''Ligature'', [''f'', ''i'']),
                   (''liga-2'', ''Ligature'', [''f'', ''dotlessi''])]\<rparr>"

definition notehead_ligature :: glyph where
  "notehead_ligature =
     notehead\<lparr>getPosSub := [(''liga-1'', ''Ligature'', [''a'', ''b'']),
                             (''liga-2'', ''Ligature'', [''c'', ''d''])]\<rparr>"

definition notehead_wide_ligature :: glyph where
  "notehead_wide_ligature =
     notehead_wide\<lparr>getPosSub := [(''liga-1'', ''Ligature'', [''e'', ''f'']),
                                  (''liga-2'', ''Ligature'', [''g'', ''h''])]\<rparr>"

text \<open>The dictionary expected for the font whose only glyph is \<open>notehead\<close>.\<close>

definition scenario_anchors_table :: pydict where
  "scenario_anchors_table =
     [(''noteheadBlack'', PDict [(''stemUpSE'', PTuple [PNum (nearest_double (4 / 25)), PNum (nearest_double (2 / 5))])])]"

definition scenario_document :: pydict where
  "scenario_document =
     [(''fontName'', PStr ''Sebastian''), (''fontVersion'', PStr ''1.0''),
      (''glyphsWithAnchors'', PDict scenario_anchors_table),
      (''glyphBBoxes'',
       PDict [(''noteheadBlack'',
               PDict [(''bBoxNE'', PTuple [PNum (nearest_double (59 / 50)), PNum (1 / 2)]),
                      (''bBoxSW'', PTuple [PNum 0, PNum (- (1 / 2))])])])]"

text \<open>A table that also names code point 62464.\<close>

definition extended_table :: name_table where
  "extended_table = [''U+E000'' \<mapsto> ''noteheadBlack'', ''U+F400'' \<mapsto> ''noteheadBlackAlt'']"

text \<open>The glyph with all its \<open>Ligature\<close> rules but the last removed (and no other rule).\<close>

definition last_ligature_only :: "glyph \<Rightarrow> glyph" where
  "last_ligature_only g =
     g\<lparr>getPosSub := (if ligature_rules g = [] then [] else [last (ligature_rules g)])\<rparr>"

section \<open>Dictionaries\<close>

lemma map_of_dict_set: "map_of (dict_set k v d) = (map_of d)(k \<mapsto> v)"
  by (induction d) (auto simp: fun_eq_iff)

lemma map_fst_dict_set: "set (map fst (dict_set k v d)) = insert k (set (map fst d))"
proof (induction d)
  case Nil
  show ?case by simp
next
  case (Cons kv d)
  obtain a b where kv: "kv = (a, b)" by (cases kv)
  show ?case
  proof (cases "a = k")
    case True
    then show ?thesis by (simp add: kv)
  next
    case False
    have "set (map fst (dict_set k v (kv # d))) = insert a (set (map fst (dict_set k v d)))"
      using False by (simp add: kv)
    also have "\<dots> = insert a (insert k (set (map fst d)))"
      by (simp only: Cons.IH)
    also have "\<dots> = insert k (set (map fst (kv # d)))"
      by (simp add: kv insert_commute)
    finally show ?thesis .
  qed
qed

lemma keys_dict_set: "fst ` set (dict_set k v d) = insert k (fst ` set d)"
  using map_fst_dict_set [of k v d] by simp

lemma dict_set_not_Nil: "dict_set k v d \<noteq> []"
  by (cases d) (auto split: if_splits)

lemma dict_set_twice: "dict_set k v (dict_set k w d) = dict_set k v d"
  by (induction d) auto

lemma dict_update_Nil: "dict_update [] d = d"
  by (simp add: dict_update_def)

lemma dict_update_Cons: "dict_update (kv # kvs) d = dict_update kvs (dict_set (fst kv) (snd kv) d)"
  by (simp add: dict_update_def)

lemma dict_update_snoc: "dict_update (kvs @ [kv]) d = dict_set (fst kv) (snd kv) (dict_update kvs d)"
  by (simp add: dict_update_def)

lemma keys_dict_update: "fst ` set (dict_update kvs d) = fst ` set d \<union> fst ` set kvs"
  by (induction kvs arbitrary: d) (auto simp: dict_update_Nil dict_update_Cons keys_dict_set)

lemma map_of_dict_update: "map_of (dict_update kvs d) = map_of d ++ map_of (rev kvs)"
proof (induction kvs arbitrary: d)
  case Nil
  show ?case by (simp add: dict_update_Nil)
next
  case (Cons kv kvs)
  show ?case
    by (rule ext)
      (simp add: dict_update_Cons Cons.IH map_of_dict_set map_add_def split: option.splits)
qed

lemma map_of_rev_unique:
  assumes "(k, v) \<in> set kvs" and "\<And>v'. (k, v') \<in> set kvs \<Longrightarrow> v' = v"
  shows "map_of (rev kvs) k = Some v"
proof -
  from assms(1) have "k \<in> fst ` set (rev kvs)" by force
  then obtain w where w: "map_of (rev kvs) k = Some w"
    by (metis map_of_eq_None_iff not_Some_eq)
  then have "(k, w) \<in> set kvs" by (metis map_of_SomeD set_rev)
  with assms(2) w show ?thesis by simp
qed

lemma dict_update_lookup:
  assumes "(k, v) \<in> set kvs" and "\<And>v'. (k, v') \<in> set kvs \<Longrightarrow> v' = v"
  shows "map_of (dict_update kvs d) k = Some v"
  by (simp add: map_of_dict_update map_add_def map_of_rev_unique [OF assms])

lemma dict_update_lookup_other:
  "k \<notin> fst ` set kvs \<Longrightarrow> map_of (dict_update kvs d) k = map_of d k"
  by (simp add: map_of_dict_update map_add_def map_of_eq_None_iff [THEN iffD2] split: option.splits)

lemma dict_set_new: "k \<notin> fst ` set d \<Longrightarrow> dict_set k v d = d @ [(k, v)]"
  by (induction d) auto

lemma dict_update_distinct:
  "distinct (map fst kvs) \<Longrightarrow> fst ` set kvs \<inter> fst ` set d = {} \<Longrightarrow> dict_update kvs d = d @ kvs"
proof (induction kvs arbitrary: d)
  case Nil
  show ?case by (simp add: dict_update_Nil)
next
  case (Cons kv kvs)
  from Cons.prems have new: "fst kv \<notin> fst ` set d" by auto
  from Cons.prems have "fst ` set kvs \<inter> fst ` set (d @ [kv]) = {}" by auto
  with Cons.prems Cons.IH [of "d @ [kv]"] have "dict_update kvs (d @ [kv]) = (d @ [kv]) @ kvs"
    by simp
  with new show ?case
    by (simp add: dict_update_Cons dict_set_new)
qed

section \<open>Code point strings\<close>

lemma below_16_cases:
  "d < 16 \<Longrightarrow> d = 0 \<or> d = 1 \<or> d = 2 \<or> d = 3 \<or> d = 4 \<or> d = 5 \<or> d = 6 \<or> d = 7 \<or> d = 8
     \<or> d = 9 \<or> d = 10 \<or> d = 11 \<or> d = 12 \<or> d = 13 \<or> d = 14 \<or> d = (15::nat)"
  by arith

lemma upper_hex_digit:
  "d < 16 \<Longrightarrow> upper_char (hex_digit d) = upper_digits ! d"
  by (drule below_16_cases) (elim disjE; simp add: upper_char_def hex_digit_def upper_digits_def)

lemma hex_value_digit:
  "d < 16 \<Longrightarrow> hex_value (upper_digits ! d) = Some d"
  by (drule below_16_cases) (elim disjE; simp add: hex_value_def upt_rec upper_digits_def)

lemma digit_zero_iff:
  "d < 16 \<Longrightarrow> (upper_digits ! d = CHR ''0'') = (d = 0)"
  by (drule below_16_cases) (elim disjE; simp add: upper_digits_def)

lemma upper_hex_nat: "upper (hex_nat n) = upper_hex n"
proof (induction n rule: hex_nat.induct)
  case (1 n)
  show ?case
  proof (cases "n < 16")
    case True
    then show ?thesis
      by (simp add: hex_nat.simps [of n] upper_hex.simps [of n] upper_def upper_hex_digit)
  next
    case False
    then have "upper (hex_nat (n div 16)) = upper_hex (n div 16)"
      using "1" by simp
    with False show ?thesis
      by (simp add: hex_nat.simps [of n] upper_hex.simps [of n] upper_def upper_hex_digit)
  qed
qed

lemma format_codepoint_nonneg:
  "0 \<le> c \<Longrightarrow> format_codepoint c = ''U+'' @ upper_hex (nat c)"
  by (simp add: format_codepoint_def hex_def upper_hex_nat)

lemma upper_hex_not_Nil: "upper_hex n \<noteq> []"
  by (simp add: upper_hex.simps [of n])

lemma parse_hex_append:
  "parse_hex (xs @ ys) acc =
     (case parse_hex xs acc of None \<Rightarrow> None | Some a \<Rightarrow> parse_hex ys a)"
  by (induction xs arbitrary: acc) (auto split: option.splits)

lemma parse_upper_hex: "parse_hex (upper_hex n) 0 = Some n"
proof (induction n rule: upper_hex.induct)
  case (1 n)
  show ?case
  proof (cases "n < 16")
    case True
    then show ?thesis
      by (simp add: upper_hex.simps [of n] hex_value_digit)
  next
    case False
    then have "parse_hex (upper_hex (n div 16)) 0 = Some (n div 16)"
      using "1" by simp
    with False show ?thesis
      by (simp add: upper_hex.simps [of n] parse_hex_append hex_value_digit)
  qed
qed

lemma hd_upper_hex: "n \<noteq> 0 \<Longrightarrow> hd (upper_hex n) \<noteq> CHR ''0''"
proof (induction n rule: upper_hex.induct)
  case (1 n)
  show ?case
  proof (cases "n < 16")
    case True
    with "1.prems" show ?thesis
      by (simp add: upper_hex.simps [of n] digit_zero_iff)
  next
    case False
    then have "n div 16 \<noteq> 0" by simp
    with False "1.IH" have "hd (upper_hex (n div 16)) \<noteq> CHR ''0''" by simp
    with False show ?thesis
      by (simp add: upper_hex.simps [of n] upper_hex_not_Nil)
  qed
qed

lemma parse_format_codepoint:
  "0 \<le> c \<Longrightarrow> parse_codepoint (format_codepoint c) = Some c"
  by (simp add: format_codepoint_nonneg parse_codepoint_def upper_hex_not_Nil parse_upper_hex)

lemma format_codepoint_E000: "format_codepoint 57344 = ''U+E000''"
  by (simp add: format_codepoint_def hex_def upper_def upper_char_def hex_digit_def
      hex_nat.simps [of 57344] hex_nat.simps [of 3584] hex_nat.simps [of 224]
      hex_nat.simps [of 14])

lemma format_codepoint_F3FF: "format_codepoint 62463 = ''U+F3FF''"
  by (simp add: format_codepoint_def hex_def upper_def upper_char_def hex_digit_def
      hex_nat.simps [of 62463] hex_nat.simps [of 3903] hex_nat.simps [of 243]
      hex_nat.simps [of 15])

text \<open>
  Claim C8.  For every Unicode scalar value \<open>c\<close>, \<open>format_codepoint c\<close> is \<open>U+\<close>
  followed by the upper-case hexadecimal digits of \<open>c\<close>, with no \<open>0x\<close> and no
  padding (the first digit is not \<open>0\<close> unless \<open>c = 0\<close>), and parsing the result
  gives \<open>c\<close> back; \<open>format_codepoint 57344\<close> is \<open>U+E000\<close> and
  \<open>format_codepoint 62463\<close> is \<open>U+F3FF\<close>.
\<close>

theorem format_codepoint_parse:
  "unicode_scalar c \<Longrightarrow>
     format_codepoint c = ''U+'' @ upper_hex (nat c)
     \<and> (c \<noteq> 0 \<longrightarrow> hd (upper_hex (nat c)) \<noteq> CHR ''0'')
     \<and> parse_codepoint (format_codepoint c) = Some c
     \<and> format_codepoint 57344 = ''U+E000''
     \<and> format_codepoint 62463 = ''U+F3FF''"
  by (simp add: unicode_scalar_def format_codepoint_nonneg hd_upper_hex
      parse_format_codepoint [unfolded format_codepoint_nonneg] upper_hex_not_Nil
      parse_codepoint_def parse_upper_hex
      format_codepoint_E000 [unfolded format_codepoint_nonneg]
      format_codepoint_F3FF [unfolded format_codepoint_nonneg])

theorem format_codepoint_parse_witness:
  "unicode_scalar 57344
     \<and> format_codepoint 57344 = ''U+'' @ upper_hex (nat 57344)
     \<and> hd (upper_hex (nat 57344)) \<noteq> CHR ''0''
     \<and> parse_codepoint (format_codepoint 57344) = Some 57344"
proof -
  have s: "unicode_scalar 57344"
    by (simp add: unicode_scalar_def)
  note t = format_codepoint_parse [OF s]
  from t have "hd (upper_hex (nat 57344)) \<noteq> CHR ''0''"
    by simp
  with s t show ?thesis
    by blast
qed

section \<open>The loops over the glyphs\<close>

lemma rel_keys:
  "list_all2 (\<lambda>g kv. res g = Inr (fst kv) \<and> Q g kv) gs kvs \<Longrightarrow>
     fst ` set kvs = {k. \<exists>g\<in>set gs. res g = Inr k}"
  by (induction gs kvs rule: list_all2_induct) auto

lemma rel_left:
  "list_all2 R gs kvs \<Longrightarrow> g \<in> set gs \<Longrightarrow> \<exists>kv\<in>set kvs. R g kv"
  by (induction gs kvs rule: list_all2_induct) auto

lemma rel_right:
  "list_all2 R gs kvs \<Longrightarrow> kv \<in> set kvs \<Longrightarrow> \<exists>g\<in>set gs. R g kv"
  by (induction gs kvs rule: list_all2_induct) auto

text \<open>The entry of a glyph whose value every glyph of the same name agrees on.\<close>

lemma rel_lookup:
  assumes rel: "list_all2 (\<lambda>g kv. res g = Inr (fst kv) \<and> Q g (snd kv)) gs kvs"
    and g: "g \<in> set gs" and k: "res g = Inr k" and v: "Q g v"
    and uniq: "\<And>g' v'. g' \<in> set gs \<Longrightarrow> res g' = Inr k \<Longrightarrow> Q g' v' \<Longrightarrow> v' = v"
  shows "map_of (dict_update kvs d) k = Some v"
proof (rule dict_update_lookup)
  from rel_left [OF rel g] obtain kv where kv: "kv \<in> set kvs" "res g = Inr (fst kv)" "Q g (snd kv)"
    by blast
  from kv(2) k have "fst kv = k" by simp
  moreover from uniq [OF g k kv(3)] have "snd kv = v" .
  ultimately show "(k, v) \<in> set kvs" using kv(1) by (cases kv) simp
next
  fix v' assume "(k, v') \<in> set kvs"
  from rel_right [OF rel this] obtain g' where "g' \<in> set gs" "res g' = Inr k" "Q g' v'"
    by auto
  then show "v' = v" by (rule uniq)
qed

lemma anchors_loop_shape:
  "anchors_loop res chars all = Inr m \<Longrightarrow>
     \<exists>kvs. m = dict_update kvs all \<and>
       list_all2 (\<lambda>g kv. res g = Inr (fst kv) \<and> snd kv = PDict (char_anchors g))
         (filter (\<lambda>g. char_anchors g \<noteq> []) chars) kvs"
proof (induction chars arbitrary: all)
  case Nil
  then show ?case by (simp add: dict_update_Nil)
next
  case (Cons char chars)
  show ?case
  proof (cases "char_anchors char \<noteq> []")
    case True
    with Cons.prems obtain n where n: "res char = Inr n"
      and run: "anchors_loop res chars (dict_set n (PDict (char_anchors char)) all) = Inr m"
      by (auto split: sum.splits)
    from Cons.IH [OF run] obtain kvs where
      "m = dict_update kvs (dict_set n (PDict (char_anchors char)) all)"
      "list_all2 (\<lambda>g kv. res g = Inr (fst kv) \<and> snd kv = PDict (char_anchors g))
         (filter (\<lambda>g. char_anchors g \<noteq> []) chars) kvs"
      by blast
    with True n show ?thesis
      by (intro exI [of _ "(n, PDict (char_anchors char)) # kvs"]) (simp add: dict_update_Cons)
  next
    case False
    with Cons show ?thesis by simp
  qed
qed

lemma bounding_boxes_loop_shape:
  "bounding_boxes_loop res chars all = Inr m \<Longrightarrow>
     \<exists>kvs. m = dict_update kvs all \<and>
       list_all2 (\<lambda>g kv. res g = Inr (fst kv) \<and> snd kv = bounding_box g) chars kvs"
proof (induction chars arbitrary: all)
  case Nil
  then show ?case by (simp add: dict_update_Nil)
next
  case (Cons char chars)
  from Cons.prems obtain n where n: "res char = Inr n"
    and run: "bounding_boxes_loop res chars (dict_set n (bounding_box char) all) = Inr m"
    by (auto split: sum.splits)
  from Cons.IH [OF run] obtain kvs where
    "m = dict_update kvs (dict_set n (bounding_box char) all)"
    "list_all2 (\<lambda>g kv. res g = Inr (fst kv) \<and> snd kv = bounding_box g) chars kvs"
    by blast
  with n show ?case
    by (intro exI [of _ "(n, bounding_box char) # kvs"]) (simp add: dict_update_Cons)
qed

lemma ligature_tables_loop_last:
  "ligature_tables_loop n c tables all =
     (if tables = [] then all else dict_set n (ligature c (last tables)) all)"
  by (induction tables arbitrary: all) (simp_all add: dict_set_twice)

lemma ligatures_loop_shape:
  "ligatures_loop res chars all = Inr m \<Longrightarrow>
     (\<forall>g\<in>set chars. \<exists>k. res g = Inr k) \<and>
     (\<exists>kvs. m = dict_update kvs all \<and>
       list_all2 (\<lambda>g kv. res g = Inr (fst kv) \<and> snd kv = ligature g (last (ligature_rules g)))
         (filter (\<lambda>g. ligature_rules g \<noteq> []) chars) kvs)"
proof (induction chars arbitrary: all)
  case Nil
  then show ?case by (simp add: dict_update_Nil)
next
  case (Cons char chars)
  let ?all = "ligature_tables_loop (projr (res char)) char (ligature_rules char) all"
  from Cons.prems obtain n where n: "res char = Inr n"
    and run: "ligatures_loop res chars (ligature_tables_loop n char (ligature_rules char) all) = Inr m"
    by (auto split: sum.splits)
  from Cons.IH [OF run] obtain kvs where all: "\<forall>g\<in>set chars. \<exists>k. res g = Inr k"
    and m: "m = dict_update kvs (ligature_tables_loop n char (ligature_rules char) all)"
    and rel: "list_all2 (\<lambda>g kv. res g = Inr (fst kv) \<and> snd kv = ligature g (last (ligature_rules g)))
         (filter (\<lambda>g. ligature_rules g \<noteq> []) chars) kvs"
    by blast
  show ?case
  proof (cases "ligature_rules char = []")
    case True
    with n all m rel show ?thesis
      by (auto simp: ligature_tables_loop_last)
  next
    case False
    with n all m rel show ?thesis
      by (auto simp: ligature_tables_loop_last dict_update_Cons
          intro!: exI [of _ "(n, ligature char (last (ligature_rules char))) # kvs"])
  qed
qed

lemma substitutes_loop_iff:
  "substitutes_loop res f names acc = Inr l \<longleftrightarrow>
     (\<exists>rs. l = acc @ rs \<and> map (alternate res f) names = map Inr rs)"
proof (induction names arbitrary: acc l)
  case Nil
  show ?case by auto
next
  case (Cons name names)
  show ?case
  proof (cases "alternate res f name")
    case (Inl e)
    then show ?thesis by (auto simp: map_eq_Cons_conv)
  next
    case (Inr r)
    then show ?thesis
      by (auto simp: Cons.IH map_eq_Cons_conv)
  qed
qed

lemma altsubs_loop_iff:
  "altsubs_loop res f tables acc = Inr l \<longleftrightarrow>
     (\<exists>rs. l = acc @ rs \<and>
        map (alternate res f) (concat (map (\<lambda>table. snd (snd table)) tables)) = map Inr rs)"
proof (induction tables arbitrary: acc l)
  case Nil
  show ?case by auto
next
  case (Cons table tables)
  obtain subtable kind names where t: "table = (subtable, kind, names)"
    by (cases table) auto
  show ?case
  proof
    assume "altsubs_loop res f (table # tables) acc = Inr l"
    then obtain l1 where l1: "substitutes_loop res f names acc = Inr l1"
      and l: "altsubs_loop res f tables l1 = Inr l"
      by (auto simp: t split: sum.splits)
    from l1 obtain rs1 where rs1: "l1 = acc @ rs1" "map (alternate res f) names = map Inr rs1"
      by (auto simp: substitutes_loop_iff)
    from l obtain rs2 where rs2: "l = l1 @ rs2"
      "map (alternate res f) (concat (map (\<lambda>table. snd (snd table)) tables)) = map Inr rs2"
      by (auto simp: Cons.IH)
    from rs1 rs2 show "\<exists>rs. l = acc @ rs \<and>
        map (alternate res f) (concat (map (\<lambda>table. snd (snd table)) (table # tables))) = map Inr rs"
      by (intro exI [of _ "rs1 @ rs2"]) (simp add: t)
  next
    assume "\<exists>rs. l = acc @ rs \<and>
        map (alternate res f) (concat (map (\<lambda>table. snd (snd table)) (table # tables))) = map Inr rs"
    then obtain rs where rs: "l = acc @ rs"
      "map (alternate res f) names @ map (alternate res f) (concat (map (\<lambda>table. snd (snd table)) tables)) = map Inr rs"
      by (auto simp: t)
    from rs(2) obtain rs1 rs2 where split: "rs = rs1 @ rs2"
      "map (alternate res f) names = map Inr rs1"
      "map (alternate res f) (concat (map (\<lambda>table. snd (snd table)) tables)) = map Inr rs2"
      by (auto simp: append_eq_map_conv)
    from split(2) have "substitutes_loop res f names acc = Inr (acc @ rs1)"
      by (auto simp: substitutes_loop_iff)
    moreover from split(3) have "altsubs_loop res f tables (acc @ rs1) = Inr ((acc @ rs1) @ rs2)"
      by (simp add: Cons.IH)
    ultimately show "altsubs_loop res f (table # tables) acc = Inr l"
      by (simp add: t rs(1) split(1))
  qed
qed

lemma char_alternates_iff:
  "char_alternates res f g = Inr l \<longleftrightarrow> map (alternate res f) (substitute_names g) = map Inr l"
  by (simp add: char_alternates_def substitute_names_def altsubs_loop_iff)

lemma char_alternates_Nil:
  "char_alternates res f g = Inr [] \<longleftrightarrow> substitute_names g = []"
  by (simp add: char_alternates_iff)

lemma alternates_loop_shape:
  "alternates_loop res f chars all = Inr m \<Longrightarrow>
     (\<forall>g\<in>set chars. \<exists>l. char_alternates res f g = Inr l) \<and>
     (\<exists>kvs. m = dict_update kvs all \<and>
       list_all2 (\<lambda>g kv. res g = Inr (fst kv) \<and>
            (\<exists>l. char_alternates res f g = Inr l \<and> snd kv = PDict [(''alternates'', PList l)]))
         (filter (\<lambda>g. substitute_names g \<noteq> []) chars) kvs)"
proof (induction chars arbitrary: all)
  case Nil
  then show ?case by (simp add: dict_update_Nil)
next
  case (Cons char chars)
  from Cons.prems obtain l where l: "char_alternates res f char = Inr l"
    by (auto split: sum.splits)
  show ?case
  proof (cases "l = []")
    case True
    with l have "substitute_names char = []" by (simp add: char_alternates_Nil)
    with Cons l True show ?thesis by auto
  next
    case False
    with l have ne: "substitute_names char \<noteq> []" by (auto simp: char_alternates_iff)
    from Cons.prems l False obtain n where n: "res char = Inr n"
      and run: "alternates_loop res f chars (dict_set n (PDict [(''alternates'', PList l)]) all) = Inr m"
      by (auto split: sum.splits)
    from Cons.IH [OF run] obtain kvs where all: "\<forall>g\<in>set chars. \<exists>l. char_alternates res f g = Inr l"
      and m: "m = dict_update kvs (dict_set n (PDict [(''alternates'', PList l)]) all)"
      and rel: "list_all2 (\<lambda>g kv. res g = Inr (fst kv) \<and>
            (\<exists>l. char_alternates res f g = Inr l \<and> snd kv = PDict [(''alternates'', PList l)]))
         (filter (\<lambda>g. substitute_names g \<noteq> []) chars) kvs"
      by blast
    from n l ne all m rel show ?thesis
      by (auto simp: dict_update_Cons
          intro!: exI [of _ "(n, PDict [(''alternates'', PList l)]) # kvs"])
  qed
qed


section \<open>The anchors of one glyph\<close>

lemma char_anchors_loop_update:
  "char_anchors_loop as ca =
     dict_update (map anchor_item (filter (\<lambda>a. fst a \<in> set valid_anchor_names) as)) ca"
  by (induction as ca rule: char_anchors_loop.induct)
    (simp_all add: dict_update_Nil dict_update_Cons anchor_item_def)

lemma char_anchors_update:
  "char_anchors g = dict_update (map anchor_item (recognized_anchors g)) []"
  by (simp add: char_anchors_def recognized_anchors_def char_anchors_loop_update)

lemma fst_anchor_item: "fst (anchor_item a) = fst a"
  by (simp add: anchor_item_def)

lemma char_anchors_keys:
  "fst ` set (char_anchors g) = fst ` set (recognized_anchors g)"
  by (simp add: char_anchors_update keys_dict_update image_image fst_anchor_item)

lemma char_anchors_Nil: "char_anchors g = [] \<longleftrightarrow> recognized_anchors g = []"
  using char_anchors_keys [of g] by auto

lemma map_of_anchor_items:
  "map_of (map anchor_item as) n = map_option (\<lambda>a. snd (anchor_item a)) (find (\<lambda>a. fst a = n) as)"
  by (induction as) (auto simp: fst_anchor_item anchor_item_def)

lemma char_anchors_lookup:
  "map_of (char_anchors g) n =
     map_option (\<lambda>a. snd (anchor_item a)) (find (\<lambda>a. fst a = n) (rev (recognized_anchors g)))"
  by (simp add: char_anchors_update map_of_dict_update rev_map map_of_anchor_items)

lemma char_anchors_distinct:
  "distinct (map fst (recognized_anchors g)) \<Longrightarrow>
     char_anchors g = map anchor_item (recognized_anchors g)"
proof -
  assume "distinct (map fst (recognized_anchors g))"
  moreover have "map fst (map anchor_item (recognized_anchors g)) = map fst (recognized_anchors g)"
    by (simp add: fst_anchor_item)
  ultimately have "distinct (map fst (map anchor_item (recognized_anchors g)))"
    by (simp only:)
  then show ?thesis
    by (simp only: char_anchors_update) (simp add: dict_update_distinct)
qed

section \<open>Saving\<close>

text \<open>
  Claim C9.  \<open>save\<close> raises \<open>PermissionError\<close> when the font is read-only and no
  argument is given; the object is then unchanged and the library has saved nothing.
  In every other case no \<open>PermissionError\<close> is raised and the library's \<open>save\<close> is
  called once, with the arguments given.
\<close>

theorem save_read_only:
  "(read_only sf \<and> args = [] \<longrightarrow>
      save sf args = (Inl PermissionError, sf)
      \<and> saved (font (snd (save sf args))) = saved (font sf))
   \<and> (\<not> (read_only sf \<and> args = []) \<longrightarrow>
      fst (save sf args) = Inr ()
      \<and> fst (save sf args) \<noteq> Inl PermissionError
      \<and> snd (save sf args) = sf\<lparr>font := font_save args (font sf)\<rparr>
      \<and> saved (font (snd (save sf args))) = saved (font sf) @ [args])"
  by (simp add: save_def font_save_def)

theorem save_read_only_witness:
  "save \<lparr>font = \<lparr>fontname = ''Sebastian'', version = ''1.0'', glyphs = [], saved = []\<rparr>,
          read_only = True, engraving_defaults = PNone\<rparr> []
     = (Inl PermissionError,
        \<lparr>font = \<lparr>fontname = ''Sebastian'', version = ''1.0'', glyphs = [], saved = []\<rparr>,
          read_only = True, engraving_defaults = PNone\<rparr>)
   \<and> fst (save \<lparr>font = \<lparr>fontname = ''Sebastian'', version = ''1.0'', glyphs = [], saved = []\<rparr>,
          read_only = True, engraving_defaults = PNone\<rparr> [''copy.sfd'']) = Inr ()
   \<and> saved (font (snd (save \<lparr>font = \<lparr>fontname = ''Sebastian'', version = ''1.0'', glyphs = [], saved = []\<rparr>,
          read_only = True, engraving_defaults = PNone\<rparr> [''copy.sfd'']))) = [[''copy.sfd'']]
   \<and> saved (font (snd (save \<lparr>font = \<lparr>fontname = ''Sebastian'', version = ''1.0'', glyphs = [], saved = []\<rparr>,
          read_only = False, engraving_defaults = PNone\<rparr> []))) = [[]]"
  using
    save_read_only [of "\<lparr>font = \<lparr>fontname = ''Sebastian'', version = ''1.0'', glyphs = [], saved = []\<rparr>,
          read_only = True, engraving_defaults = PNone\<rparr>" "[]"]
    save_read_only [of "\<lparr>font = \<lparr>fontname = ''Sebastian'', version = ''1.0'', glyphs = [], saved = []\<rparr>,
          read_only = True, engraving_defaults = PNone\<rparr>" "[''copy.sfd'']"]
    save_read_only [of "\<lparr>font = \<lparr>fontname = ''Sebastian'', version = ''1.0'', glyphs = [], saved = []\<rparr>,
          read_only = False, engraving_defaults = PNone\<rparr>" "[]"]
  by (simp add: font_save_def)

section \<open>The tables\<close>

lemma keys_filter_rel:
  assumes "list_all2 (\<lambda>g kv. res g = Inr (fst kv) \<and> Q g kv) (filter inc gs) kvs"
  shows "fst ` set (dict_update kvs []) = {k. \<exists>g\<in>set gs. inc g \<and> res g = Inr k}"
proof -
  have "fst ` set kvs = {k. \<exists>g\<in>set (filter inc gs). res g = Inr k}"
    using assms by (rule rel_keys)
  then show ?thesis
    by (auto simp: keys_dict_update)
qed

lemma entry_filter_rel:
  assumes rel: "list_all2 (\<lambda>g kv. res g = Inr (fst kv) \<and> Q g (snd kv)) (filter inc gs) kvs"
    and g: "g \<in> set gs" "inc g"
    and uniq: "\<And>g'. g' \<in> set gs \<Longrightarrow> inc g' \<Longrightarrow> res g' = res g \<Longrightarrow> g' = g"
    and func: "\<And>v v'. Q g v \<Longrightarrow> Q g v' \<Longrightarrow> v' = v"
  shows "\<exists>k v. res g = Inr k \<and> Q g v \<and> map_of (dict_update kvs d) k = Some v"
proof -
  from g have g': "g \<in> set (filter inc gs)" by simp
  from rel_left [OF rel g'] obtain kv where kv: "res g = Inr (fst kv)" "Q g (snd kv)"
    by blast
  have "map_of (dict_update kvs d) (fst kv) = Some (snd kv)"
  proof (rule rel_lookup [OF rel g' kv])
    fix h v'
    assume h: "h \<in> set (filter inc gs)" "res h = Inr (fst kv)" "Q h v'"
    with uniq [of h] kv(1) have "h = g" by simp
    with h(3) kv(2) show "v' = snd kv" by (auto intro: func)
  qed
  with kv show ?thesis by blast
qed

lemma anchors_loop_keys:
  assumes "anchors_loop res gs [] = Inr m"
  shows "fst ` set m = {k. \<exists>g\<in>set gs. char_anchors g \<noteq> [] \<and> res g = Inr k}"
proof -
  from anchors_loop_shape [OF assms] obtain kvs where m: "m = dict_update kvs []"
    and rel: "list_all2 (\<lambda>g kv. res g = Inr (fst kv) \<and> snd kv = PDict (char_anchors g))
         (filter (\<lambda>g. char_anchors g \<noteq> []) gs) kvs"
    by blast
  from keys_filter_rel [OF rel] show ?thesis
    by (simp only: m)
qed

lemma anchors_loop_entry:
  assumes run: "anchors_loop res gs [] = Inr m" and g: "g \<in> set gs" "char_anchors g \<noteq> []"
    and uniq: "\<And>g'. g' \<in> set gs \<Longrightarrow> char_anchors g' \<noteq> [] \<Longrightarrow> res g' = res g \<Longrightarrow> g' = g"
  shows "\<exists>k. res g = Inr k \<and> map_of m k = Some (PDict (char_anchors g))"
proof -
  from anchors_loop_shape [OF run] obtain kvs where m: "m = dict_update kvs []"
    and rel: "list_all2 (\<lambda>g kv. res g = Inr (fst kv) \<and> snd kv = PDict (char_anchors g))
         (filter (\<lambda>g. char_anchors g \<noteq> []) gs) kvs"
    by blast
  from entry_filter_rel [where Q = "\<lambda>g v. v = PDict (char_anchors g)" and d = "[]",
      OF rel g uniq]
  obtain k where "res g = Inr k" "map_of (dict_update kvs []) k = Some (PDict (char_anchors g))"
    by fastforce
  then show ?thesis
    by (auto simp only: m)
qed

lemma bounding_boxes_loop_keys:
  assumes "bounding_boxes_loop res gs [] = Inr m"
  shows "fst ` set m = {k. \<exists>g\<in>set gs. res g = Inr k}"
proof -
  from bounding_boxes_loop_shape [OF assms] obtain kvs where m: "m = dict_update kvs []"
    and rel: "list_all2 (\<lambda>g kv. res g = Inr (fst kv) \<and> snd kv = bounding_box g) gs kvs"
    by blast
  from rel_keys [OF rel] show ?thesis
    by (simp add: m keys_dict_update)
qed

lemma bounding_boxes_loop_entry:
  assumes run: "bounding_boxes_loop res gs [] = Inr m" and g: "g \<in> set gs"
    and uniq: "\<And>g'. g' \<in> set gs \<Longrightarrow> res g' = res g \<Longrightarrow> g' = g"
  shows "\<exists>k. res g = Inr k \<and> map_of m k = Some (bounding_box g)"
proof -
  from bounding_boxes_loop_shape [OF run] obtain kvs where m: "m = dict_update kvs []"
    and rel: "list_all2 (\<lambda>g kv. res g = Inr (fst kv) \<and> snd kv = bounding_box g)
         (filter (\<lambda>g. True) gs) kvs"
    by auto
  from entry_filter_rel [where Q = "\<lambda>g v. v = bounding_box g" and d = "[]",
      OF rel g TrueI uniq]
  obtain k where "res g = Inr k" "map_of (dict_update kvs []) k = Some (bounding_box g)"
    by fastforce
  then show ?thesis
    by (auto simp only: m)
qed

lemma ligatures_loop_keys:
  assumes "ligatures_loop res gs [] = Inr m"
  shows "fst ` set m = {k. \<exists>g\<in>set gs. ligature_rules g \<noteq> [] \<and> res g = Inr k}"
proof -
  from ligatures_loop_shape [OF assms] obtain kvs where m: "m = dict_update kvs []"
    and rel: "list_all2 (\<lambda>g kv. res g = Inr (fst kv) \<and> snd kv = ligature g (last (ligature_rules g)))
         (filter (\<lambda>g. ligature_rules g \<noteq> []) gs) kvs"
    by blast
  from keys_filter_rel [OF rel] show ?thesis
    by (simp only: m)
qed

lemma ligatures_loop_entry:
  assumes run: "ligatures_loop res gs [] = Inr m" and g: "g \<in> set gs" "ligature_rules g \<noteq> []"
    and uniq: "\<And>g'. g' \<in> set gs \<Longrightarrow> ligature_rules g' \<noteq> [] \<Longrightarrow> res g' = res g \<Longrightarrow> g' = g"
  shows "\<exists>k. res g = Inr k \<and> map_of m k = Some (ligature g (last (ligature_rules g)))"
proof -
  from ligatures_loop_shape [OF run] obtain kvs where m: "m = dict_update kvs []"
    and rel: "list_all2 (\<lambda>g kv. res g = Inr (fst kv) \<and> snd kv = ligature g (last (ligature_rules g)))
         (filter (\<lambda>g. ligature_rules g \<noteq> []) gs) kvs"
    by blast
  from entry_filter_rel [where Q = "\<lambda>g v. v = ligature g (last (ligature_rules g))"
      and d = "[]", OF rel g uniq]
  obtain k where "res g = Inr k"
    "map_of (dict_update kvs []) k = Some (ligature g (last (ligature_rules g)))"
    by fastforce
  then show ?thesis
    by (auto simp only: m)
qed

lemma alternates_loop_keys:
  assumes "alternates_loop res f gs [] = Inr m"
  shows "fst ` set m = {k. \<exists>g\<in>set gs. substitute_names g \<noteq> [] \<and> res g = Inr k}"
proof -
  from alternates_loop_shape [OF assms] obtain kvs where m: "m = dict_update kvs []"
    and rel: "list_all2 (\<lambda>g kv. res g = Inr (fst kv) \<and>
            (\<exists>l. char_alternates res f g = Inr l \<and> snd kv = PDict [(''alternates'', PList l)]))
         (filter (\<lambda>g. substitute_names g \<noteq> []) gs) kvs"
    by blast
  from keys_filter_rel [OF rel] show ?thesis
    by (simp only: m)
qed

lemma alternates_loop_entry:
  assumes run: "alternates_loop res f gs [] = Inr m" and g: "g \<in> set gs" "substitute_names g \<noteq> []"
    and uniq: "\<And>g'. g' \<in> set gs \<Longrightarrow> substitute_names g' \<noteq> [] \<Longrightarrow> res g' = res g \<Longrightarrow> g' = g"
  shows "\<exists>k l. res g = Inr k \<and> map (alternate res f) (substitute_names g) = map Inr l
           \<and> map_of m k = Some (PDict [(''alternates'', PList l)])"
proof -
  from alternates_loop_shape [OF run] obtain kvs where m: "m = dict_update kvs []"
    and rel: "list_all2 (\<lambda>g kv. res g = Inr (fst kv) \<and>
            (\<exists>l. char_alternates res f g = Inr l \<and> snd kv = PDict [(''alternates'', PList l)]))
         (filter (\<lambda>g. substitute_names g \<noteq> []) gs) kvs"
    by blast
  from entry_filter_rel [where Q = "\<lambda>g v. \<exists>l. char_alternates res f g = Inr l
      \<and> v = PDict [(''alternates'', PList l)]" and d = "[]", OF rel g uniq]
  obtain k l where "res g = Inr k" "char_alternates res f g = Inr l"
    "map_of (dict_update kvs []) k = Some (PDict [(''alternates'', PList l)])"
    by fastforce
  then show ?thesis
    by (auto simp only: m char_alternates_iff)
qed

lemma smufl_iter_set: "set (smufl_iter f) = {g \<in> set (glyphs f). in_smufl_range g}"
  by (auto simp: smufl_iter_def in_smufl_range_def)

lemma smufl_name_Inr:
  "smufl_name tbl g = Inr (case tbl (smufl_codepoint g) of Some n \<Rightarrow> n | None \<Rightarrow> glyphname g)"
  by (simp add: smufl_name_def smufl_canonical_name_def split: option.splits)

lemma anchors_loop_total:
  "(\<And>g. \<exists>k. res g = Inr k) \<Longrightarrow> \<exists>m. anchors_loop res gs all = Inr m"
proof (induction gs arbitrary: all)
  case Nil
  show ?case by simp
next
  case (Cons g gs)
  from Cons.prems obtain k where "res g = Inr k" by blast
  with Cons.IH [OF Cons.prems] show ?case by simp
qed

lemma bounding_boxes_loop_total:
  "(\<And>g. \<exists>k. res g = Inr k) \<Longrightarrow> \<exists>m. bounding_boxes_loop res gs all = Inr m"
proof (induction gs arbitrary: all)
  case Nil
  show ?case by simp
next
  case (Cons g gs)
  from Cons.prems obtain k where "res g = Inr k" by blast
  with Cons.IH [OF Cons.prems] show ?case by simp
qed

lemma ligatures_loop_total:
  "(\<And>g. \<exists>k. res g = Inr k) \<Longrightarrow> \<exists>m. ligatures_loop res gs all = Inr m"
proof (induction gs arbitrary: all)
  case Nil
  show ?case by simp
next
  case (Cons g gs)
  from Cons.prems obtain k where "res g = Inr k" by blast
  with Cons.IH [OF Cons.prems] show ?case by simp
qed

section \<open>The assembled dictionary\<close>

lemma map_of_put_if:
  "map_of (put_if key t d) = (if t = [] then map_of d else (map_of d)(key \<mapsto> PDict t))"
  by (simp add: put_if_def map_of_dict_set)

lemma asdict_body_Inr:
  assumes "asdict_body n v ed a b c l = Inr d"
  shows "\<exists>ta tb tc tg. a = Inr ta \<and> b = Inr tb \<and> c = Inr tc \<and> l = Inr tg"
  using assms by (auto simp: asdict_body_def Let_def split: sum.splits)

lemma asdict_body_map:
  assumes "asdict_body n v ed (Inr ta) (Inr tb) (Inr tc) (Inr tg) = Inr d"
  shows "map_of d k =
     (if k = ''fontName'' then Some (PStr n)
      else if k = ''fontVersion'' then Some (PStr v)
      else if k = ''engravingDefaults'' then (if truthy ed then Some ed else None)
      else if k = ''glyphsWithAnchors'' then (if ta = [] then None else Some (PDict ta))
      else if k = ''glyphsWithAlternates'' then (if tb = [] then None else Some (PDict tb))
      else if k = ''glyphBBoxes'' then (if tc = [] then None else Some (PDict tc))
      else if k = ''ligatures'' then (if tg = [] then None else Some (PDict tg))
      else None)"
proof -
  from assms have d: "d = put_if ''ligatures'' tg (put_if ''glyphBBoxes'' tc
      (put_if ''glyphsWithAlternates'' tb (put_if ''glyphsWithAnchors'' ta
        (if truthy ed
         then dict_set ''engravingDefaults'' ed
                (dict_set ''fontVersion'' (PStr v) (dict_set ''fontName'' (PStr n) []))
         else dict_set ''fontVersion'' (PStr v) (dict_set ''fontName'' (PStr n) [])))))"
    by (simp add: asdict_body_def Let_def del: dict_set.simps)
  show ?thesis
    unfolding d by (simp add: map_of_put_if map_of_dict_set del: dict_set.simps)
qed

lemma truthy_not_empty: "truthy v \<Longrightarrow> \<not> empty_container v"
  by (cases v) auto

lemma in_keys_iff: "k \<in> set (dict_keys d) \<longleftrightarrow> map_of d k \<noteq> None"
  by (simp add: dict_keys_def map_of_eq_None_iff)

lemma asdict_body_no_empty:
  assumes "asdict_body n v ed (Inr ta) (Inr tb) (Inr tc) (Inr tg) = Inr d"
    and "dict_get d k = Some x" and "k \<noteq> ''fontName''" and "k \<noteq> ''fontVersion''"
  shows "\<not> empty_container x"
  using assms(2-) truthy_not_empty [of ed]
  by (auto simp: dict_get_def asdict_body_map [OF assms(1)] split: if_splits)

lemma asdict_body_keys:
  assumes "asdict_body n v ed (Inr ta) (Inr tb) (Inr tc) (Inr tg) = Inr d"
  shows "set (dict_keys d) \<subseteq>
     {''fontName'', ''fontVersion'', ''engravingDefaults''} \<union> set glyph_tables"
proof
  fix k assume "k \<in> set (dict_keys d)"
  then have "map_of d k \<noteq> None" by (simp add: in_keys_iff)
  then show "k \<in> {''fontName'', ''fontVersion'', ''engravingDefaults''} \<union> set glyph_tables"
    unfolding asdict_body_map [OF assms] glyph_tables_def
    by (auto split: if_splits)
qed

lemma anchors_loop_empty:
  assumes "anchors_loop res gs [] = Inr t" and "\<And>g. g \<in> set gs \<Longrightarrow> recognized_anchors g = []"
  shows "t = []"
proof -
  from anchors_loop_keys [OF assms(1)] assms(2) have "fst ` set t = {}"
    by (auto simp: char_anchors_Nil)
  then show ?thesis by simp
qed

section \<open>Evaluation of the examples\<close>

lemma format_codepoint_F400: "format_codepoint 62464 = ''U+F400''"
  by (simp add: format_codepoint_def hex_def upper_def upper_char_def hex_digit_def
      hex_nat.simps [of 62464] hex_nat.simps [of 3904] hex_nat.simps [of 244]
      hex_nat.simps [of 15])

lemma format_codepoint_FB01: "format_codepoint 64257 = ''U+FB01''"
  by (simp add: format_codepoint_def hex_def upper_def upper_char_def hex_digit_def
      hex_nat.simps [of 64257] hex_nat.simps [of 4016] hex_nat.simps [of 251]
      hex_nat.simps [of 15])

lemma quotient_thousandths:
  "round_half_even (nearest_double (0 / 250) * 10 ^ 3) = 0"
  "round_half_even (nearest_double (40 / 250) * 10 ^ 3) = 160"
  "round_half_even (nearest_double (100 / 250) * 10 ^ 3) = 400"
  "round_half_even (nearest_double (80 / 250) * 10 ^ 3) = 320"
  "round_half_even (nearest_double (200 / 250) * 10 ^ 3) = 800"
  "round_half_even (nearest_double (295 / 250) * 10 ^ 3) = 1180"
  "round_half_even (nearest_double (- 125 / 250) * 10 ^ 3) = - 500"
  "round_half_even (nearest_double (125 / 250) * 10 ^ 3) = 500"
  "round_half_even (nearest_double (250 / 250) * 10 ^ 3) = 1000"
  "round_half_even (nearest_double (500 / 250) * 10 ^ 3) = 2000"
  by code_simp+

lemma exact_doubles:
  "nearest_double 0 = 0" "nearest_double (1 / 2) = 1 / 2"
  "nearest_double (- (1 / 2)) = - (1 / 2)" "nearest_double 1 = 1" "nearest_double 2 = 2"
  by code_simp+

lemma distinct_doubles:
  "nearest_double (59 / 50) \<noteq> 2" "nearest_double (4 / 25) \<noteq> nearest_double (8 / 25)"
  "nearest_double (2 / 5) \<noteq> nearest_double (4 / 5)"
  by code_simp+

lemma em_to_spaces_values:
  "em_to_spaces 0 = 0" "em_to_spaces 40 = nearest_double (4 / 25)"
  "em_to_spaces 100 = nearest_double (2 / 5)" "em_to_spaces 80 = nearest_double (8 / 25)"
  "em_to_spaces 200 = nearest_double (4 / 5)" "em_to_spaces (- 125) = - (1 / 2)"
  "em_to_spaces 125 = 1 / 2" "em_to_spaces 295 = nearest_double (59 / 50)"
  "em_to_spaces 250 = 1" "em_to_spaces 500 = 2"
  unfolding em_to_spaces_def py_round_def float_div_def quotient_thousandths
  by (simp_all add: exact_doubles)

lemmas example_defs =
  example_table_def notehead_def font_of_def smufl_font_of_def notehead_two_anchors_def
  notehead_wide_def custom_glyph_def notehead_with_alternate_def substitute_glyph_def
  notehead_empty_rule_def fi_ligature_def notehead_ligature_def notehead_wide_ligature_def
  extended_table_def

lemmas table_defs =
  anchors_def alternates_def bounding_boxes_def ligatures_def
  glyphsWithAnchors_def glyphsWithAlternates_def glyphBBoxes_def ligatures_md_def
  smufl_iter_def canonical_def canonical_glyphname_def smufl_name_def smufl_canonical_name_def
  smufl_codepoint_def char_anchors_def valid_anchor_names_def bounding_box_def
  char_alternates_def alternate_def font_getitem_def is_AltSubs_def is_Ligature_def
  ligature_rules_def ligature_def
  format_codepoint_E000 format_codepoint_F3FF format_codepoint_F400 format_codepoint_FB01
  em_to_spaces_values distinct_doubles

lemma scenario_anchors:
  "anchors example_table (smufl_font_of [notehead]) = Inr scenario_anchors_table"
  by (simp add: example_defs table_defs scenario_anchors_table_def)

lemma scenario_alternates: "alternates example_table (smufl_font_of [notehead]) = Inr []"
  by (simp add: example_defs table_defs)

lemma scenario_bounding_boxes:
  "bounding_boxes example_table (smufl_font_of [notehead]) =
     Inr [(''noteheadBlack'',
           PDict [(''bBoxNE'', PTuple [PNum (nearest_double (59 / 50)), PNum (1 / 2)]),
                  (''bBoxSW'', PTuple [PNum 0, PNum (- (1 / 2))])])]"
  by (simp add: example_defs table_defs)

lemma scenario_ligatures: "ligatures example_table (smufl_font_of [notehead]) = Inr []"
  by (simp add: example_defs table_defs)

lemma scenario_asdict:
  "asdict example_table (smufl_font_of [notehead]) = Inr scenario_document"
  by (simp add: asdict_def asdict_body_def put_if_def scenario_anchors scenario_alternates
      scenario_bounding_boxes scenario_ligatures scenario_document_def scenario_anchors_table_def)
    (simp add: smufl_font_of_def font_of_def)

lemma scenario_SmuflMetadata_asdict:
  "SmuflMetadata_asdict example_table (font_of [notehead]) PNone = Inr scenario_document"
  by (simp add: SmuflMetadata_asdict_def asdict_body_def put_if_def scenario_document_def
      scenario_anchors_table_def example_defs table_defs)

section \<open>Empty tables are left out\<close>

lemma asdict_body_tables:
  assumes "asdict_body n v ed a b c l = Inr d"
  shows "(\<forall>k x. dict_get d k = Some x \<longrightarrow> k \<noteq> ''fontName'' \<longrightarrow> k \<noteq> ''fontVersion''
            \<longrightarrow> \<not> empty_container x)
     \<and> set (dict_keys d) \<subseteq> {''fontName'', ''fontVersion'', ''engravingDefaults''} \<union> set glyph_tables
     \<and> dict_get d ''engravingDefaults'' = (if truthy ed then Some ed else None)
     \<and> (\<exists>t. a = Inr t \<and> dict_get d ''glyphsWithAnchors'' = (if t = [] then None else Some (PDict t)))
     \<and> (\<exists>t. b = Inr t \<and> dict_get d ''glyphsWithAlternates'' = (if t = [] then None else Some (PDict t)))
     \<and> (\<exists>t. c = Inr t \<and> dict_get d ''glyphBBoxes'' = (if t = [] then None else Some (PDict t)))
     \<and> (\<exists>t. l = Inr t \<and> dict_get d ''ligatures'' = (if t = [] then None else Some (PDict t)))"
proof -
  from asdict_body_Inr [OF assms] obtain ta tb tc tg
    where r: "a = Inr ta" "b = Inr tb" "c = Inr tc" "l = Inr tg"
    by blast
  note run = assms [unfolded r]
  have "\<forall>k x. dict_get d k = Some x \<longrightarrow> k \<noteq> ''fontName'' \<longrightarrow> k \<noteq> ''fontVersion''
            \<longrightarrow> \<not> empty_container x"
    using asdict_body_no_empty [OF run] by blast
  moreover note asdict_body_keys [OF run]
  moreover have "dict_get d ''engravingDefaults'' = (if truthy ed then Some ed else None)"
    by (simp add: dict_get_def asdict_body_map [OF run])
  moreover have "dict_get d ''glyphsWithAnchors'' = (if ta = [] then None else Some (PDict ta))"
    by (simp add: dict_get_def asdict_body_map [OF run])
  moreover have "dict_get d ''glyphsWithAlternates'' = (if tb = [] then None else Some (PDict tb))"
    by (simp add: dict_get_def asdict_body_map [OF run])
  moreover have "dict_get d ''glyphBBoxes'' = (if tc = [] then None else Some (PDict tc))"
    by (simp add: dict_get_def asdict_body_map [OF run])
  moreover have "dict_get d ''ligatures'' = (if tg = [] then None else Some (PDict tg))"
    by (simp add: dict_get_def asdict_body_map [OF run])
  ultimately show ?thesis
    by (simp only: r sum.inject simp_thms ex_simps)
qed

lemma no_anchors_key:
  assumes "asdict_body n v ed (anchors_loop res gs []) b c l = Inr d"
    and "\<And>g. g \<in> set gs \<Longrightarrow> recognized_anchors g = []"
  shows "''glyphsWithAnchors'' \<notin> set (dict_keys d)"
proof -
  from asdict_body_tables [OF assms(1)] obtain t where t: "anchors_loop res gs [] = Inr t"
    "dict_get d ''glyphsWithAnchors'' = (if t = [] then None else Some (PDict t))"
    by blast
  from anchors_loop_empty [OF t(1) assms(2)] have "t = []" by simp
  with t(2) show ?thesis
    by (simp add: in_keys_iff dict_get_def)
qed

text \<open>
  Claim C2.  The dictionary \<open>asdict\<close> returns binds no key other than \<open>fontName\<close> and
  \<open>fontVersion\<close> to an empty container: \<open>engravingDefaults\<close> is present exactly when
  the defaults are true as a Python value, each of \<open>glyphsWithAnchors\<close>,
  \<open>glyphsWithAlternates\<close>, \<open>glyphBBoxes\<close> and \<open>ligatures\<close> exactly when its table is
  not empty, and there are no other keys; when no glyph of the SMuFL range has a
  recognized anchor the key \<open>glyphsWithAnchors\<close> is absent.  This holds for
  \<open>_SmuflMetadata.asdict\<close> of \<open>ffsmufl.py\<close> and for \<open>SmuflMetadata.asdict\<close> of
  \<open>ff_smufl_metadata.py\<close>.
\<close>

theorem asdict_no_empty_table:
  "(asdict tbl sf = Inr d \<longrightarrow>
      (\<forall>k x. dict_get d k = Some x \<longrightarrow> k \<noteq> ''fontName'' \<longrightarrow> k \<noteq> ''fontVersion''
            \<longrightarrow> \<not> empty_container x)
      \<and> set (dict_keys d) \<subseteq> {''fontName'', ''fontVersion'', ''engravingDefaults''} \<union> set glyph_tables
      \<and> dict_get d ''engravingDefaults''
          = (if truthy (engraving_defaults sf) then Some (engraving_defaults sf) else None)
      \<and> (\<exists>t. anchors tbl sf = Inr t
            \<and> dict_get d ''glyphsWithAnchors'' = (if t = [] then None else Some (PDict t)))
      \<and> (\<exists>t. alternates tbl sf = Inr t
            \<and> dict_get d ''glyphsWithAlternates'' = (if t = [] then None else Some (PDict t)))
      \<and> (\<exists>t. bounding_boxes tbl sf = Inr t
            \<and> dict_get d ''glyphBBoxes'' = (if t = [] then None else Some (PDict t)))
      \<and> (\<exists>t. ligatures tbl sf = Inr t
            \<and> dict_get d ''ligatures'' = (if t = [] then None else Some (PDict t)))
      \<and> ((\<forall>g\<in>set (glyphs (font sf)). in_smufl_range g \<longrightarrow> recognized_anchors g = [])
            \<longrightarrow> ''glyphsWithAnchors'' \<notin> set (dict_keys d)))
   \<and> (SmuflMetadata_asdict tbl f ed = Inr d' \<longrightarrow>
      (\<forall>k x. dict_get d' k = Some x \<longrightarrow> k \<noteq> ''fontName'' \<longrightarrow> k \<noteq> ''fontVersion''
            \<longrightarrow> \<not> empty_container x)
      \<and> set (dict_keys d') \<subseteq> {''fontName'', ''fontVersion'', ''engravingDefaults''} \<union> set glyph_tables
      \<and> dict_get d' ''engravingDefaults'' = (if truthy ed then Some ed else None)
      \<and> (\<exists>t. glyphsWithAnchors tbl f = Inr t
            \<and> dict_get d' ''glyphsWithAnchors'' = (if t = [] then None else Some (PDict t)))
      \<and> (\<exists>t. glyphsWithAlternates tbl f = Inr t
            \<and> dict_get d' ''glyphsWithAlternates'' = (if t = [] then None else Some (PDict t)))
      \<and> (\<exists>t. glyphBBoxes tbl f = Inr t
            \<and> dict_get d' ''glyphBBoxes'' = (if t = [] then None else Some (PDict t)))
      \<and> (\<exists>t. ligatures_md tbl f = Inr t
            \<and> dict_get d' ''ligatures'' = (if t = [] then None else Some (PDict t)))
      \<and> ((\<forall>g\<in>set (glyphs f). in_smufl_range g \<longrightarrow> recognized_anchors g = [])
            \<longrightarrow> ''glyphsWithAnchors'' \<notin> set (dict_keys d')))"
proof (intro conjI impI)
  assume run: "asdict tbl sf = Inr d"
  note t = asdict_body_tables [OF run [unfolded asdict_def]]
  from t show "\<forall>k x. dict_get d k = Some x \<longrightarrow> k \<noteq> ''fontName'' \<longrightarrow> k \<noteq> ''fontVersion''
            \<longrightarrow> \<not> empty_container x" by blast
  from t show "set (dict_keys d) \<subseteq> {''fontName'', ''fontVersion'', ''engravingDefaults''} \<union> set glyph_tables"
    by blast
  from t show "dict_get d ''engravingDefaults''
          = (if truthy (engraving_defaults sf) then Some (engraving_defaults sf) else None)" by blast
  from t show "\<exists>t. anchors tbl sf = Inr t
            \<and> dict_get d ''glyphsWithAnchors'' = (if t = [] then None else Some (PDict t))" by blast
  from t show "\<exists>t. alternates tbl sf = Inr t
            \<and> dict_get d ''glyphsWithAlternates'' = (if t = [] then None else Some (PDict t))" by blast
  from t show "\<exists>t. bounding_boxes tbl sf = Inr t
            \<and> dict_get d ''glyphBBoxes'' = (if t = [] then None else Some (PDict t))" by blast
  from t show "\<exists>t. ligatures tbl sf = Inr t
            \<and> dict_get d ''ligatures'' = (if t = [] then None else Some (PDict t))" by blast
  assume none: "\<forall>g\<in>set (glyphs (font sf)). in_smufl_range g \<longrightarrow> recognized_anchors g = []"
  show "''glyphsWithAnchors'' \<notin> set (dict_keys d)"
  proof (rule no_anchors_key [OF run [unfolded asdict_def anchors_def]])
    fix g assume "g \<in> set (smufl_iter (font sf))"
    with none show "recognized_anchors g = []" by (simp add: smufl_iter_set)
  qed
next
  assume run: "SmuflMetadata_asdict tbl f ed = Inr d'"
  note t = asdict_body_tables [OF run [unfolded SmuflMetadata_asdict_def]]
  from t show "\<forall>k x. dict_get d' k = Some x \<longrightarrow> k \<noteq> ''fontName'' \<longrightarrow> k \<noteq> ''fontVersion''
            \<longrightarrow> \<not> empty_container x" by blast
  from t show "set (dict_keys d') \<subseteq> {''fontName'', ''fontVersion'', ''engravingDefaults''} \<union> set glyph_tables"
    by blast
  from t show "dict_get d' ''engravingDefaults'' = (if truthy ed then Some ed else None)" by blast
  from t show "\<exists>t. glyphsWithAnchors tbl f = Inr t
            \<and> dict_get d' ''glyphsWithAnchors'' = (if t = [] then None else Some (PDict t))" by blast
  from t show "\<exists>t. glyphsWithAlternates tbl f = Inr t
            \<and> dict_get d' ''glyphsWithAlternates'' = (if t = [] then None else Some (PDict t))" by blast
  from t show "\<exists>t. glyphBBoxes tbl f = Inr t
            \<and> dict_get d' ''glyphBBoxes'' = (if t = [] then None else Some (PDict t))" by blast
  from t show "\<exists>t. ligatures_md tbl f = Inr t
            \<and> dict_get d' ''ligatures'' = (if t = [] then None else Some (PDict t))" by blast
  assume none: "\<forall>g\<in>set (glyphs f). in_smufl_range g \<longrightarrow> recognized_anchors g = []"
  show "''glyphsWithAnchors'' \<notin> set (dict_keys d')"
  proof (rule no_anchors_key [OF run [unfolded SmuflMetadata_asdict_def glyphsWithAnchors_def]])
    fix g assume "g \<in> set (smufl_iter f)"
    with none show "recognized_anchors g = []" by (simp add: smufl_iter_set)
  qed
qed

section \<open>Keys of the tables\<close>

theorem asdict_no_empty_table_witness:
  "asdict example_table (smufl_font_of [notehead]) = Inr scenario_document
   \<and> SmuflMetadata_asdict example_table (font_of [notehead]) PNone = Inr scenario_document
   \<and> set (dict_keys scenario_document)
        \<subseteq> {''fontName'', ''fontVersion'', ''engravingDefaults''} \<union> set glyph_tables
   \<and> dict_get scenario_document ''engravingDefaults'' = None
   \<and> dict_get scenario_document ''glyphsWithAnchors'' = Some (PDict scenario_anchors_table)
   \<and> dict_get scenario_document ''glyphsWithAlternates'' = None
   \<and> dict_get scenario_document ''ligatures'' = None"
proof -
  note t = asdict_no_empty_table [where tbl = example_table and sf = "smufl_font_of [notehead]"
      and d = scenario_document and f = "font_of [notehead]" and ed = PNone
      and d' = scenario_document]
  from t scenario_asdict
  have keys: "set (dict_keys scenario_document)
        \<subseteq> {''fontName'', ''fontVersion'', ''engravingDefaults''} \<union> set glyph_tables"
    and a: "\<exists>t. anchors example_table (smufl_font_of [notehead]) = Inr t
      \<and> dict_get scenario_document ''glyphsWithAnchors'' = (if t = [] then None else Some (PDict t))"
    and b: "\<exists>t. alternates example_table (smufl_font_of [notehead]) = Inr t
      \<and> dict_get scenario_document ''glyphsWithAlternates'' = (if t = [] then None else Some (PDict t))"
    by blast+
  from t scenario_SmuflMetadata_asdict
  have e: "dict_get scenario_document ''engravingDefaults'' = (if truthy PNone then Some PNone else None)"
    and l: "\<exists>t. ligatures_md example_table (font_of [notehead]) = Inr t
      \<and> dict_get scenario_document ''ligatures'' = (if t = [] then None else Some (PDict t))"
    by blast+
  from a have a': "dict_get scenario_document ''glyphsWithAnchors'' = Some (PDict scenario_anchors_table)"
    by (simp add: scenario_anchors scenario_anchors_table_def)
  from b have b': "dict_get scenario_document ''glyphsWithAlternates'' = None"
    by (simp add: scenario_alternates)
  from l have l': "dict_get scenario_document ''ligatures'' = None"
    by (simp add: example_defs table_defs)
  from e have e': "dict_get scenario_document ''engravingDefaults'' = None"
    by simp
  from scenario_asdict scenario_SmuflMetadata_asdict keys e' a' b' l' show ?thesis
    by blast
qed

lemma table_key_resolved:
  assumes run: "asdict_body n v ed (anchors_loop res gs []) (alternates_loop res f gs [])
      (bounding_boxes_loop res gs []) (ligatures_loop res gs []) = Inr d"
    and t: "t \<in> set glyph_tables" and m: "dict_get d t = Some (PDict m)"
    and k: "k \<in> set (dict_keys m)"
  shows "\<exists>g\<in>set gs. res g = Inr k"
proof -
  from asdict_body_tables [OF run] obtain ta tb tc tg where
    ta: "anchors_loop res gs [] = Inr ta"
      "dict_get d ''glyphsWithAnchors'' = (if ta = [] then None else Some (PDict ta))"
    and tb: "alternates_loop res f gs [] = Inr tb"
      "dict_get d ''glyphsWithAlternates'' = (if tb = [] then None else Some (PDict tb))"
    and tc: "bounding_boxes_loop res gs [] = Inr tc"
      "dict_get d ''glyphBBoxes'' = (if tc = [] then None else Some (PDict tc))"
    and tg: "ligatures_loop res gs [] = Inr tg"
      "dict_get d ''ligatures'' = (if tg = [] then None else Some (PDict tg))"
    by blast
  from k have k': "k \<in> fst ` set m" by (simp add: dict_keys_def)
  from t consider "t = ''glyphsWithAnchors''" | "t = ''glyphsWithAlternates''"
    | "t = ''glyphBBoxes''" | "t = ''ligatures''"
    by (auto simp: glyph_tables_def)
  then show ?thesis
  proof cases
    case 1
    with m ta(2) have "m = ta" by (simp split: if_splits)
    with k' anchors_loop_keys [OF ta(1)] show ?thesis by auto
  next
    case 2
    with m tb(2) have "m = tb" by (simp split: if_splits)
    with k' alternates_loop_keys [OF tb(1)] show ?thesis by auto
  next
    case 3
    with m tc(2) have "m = tc" by (simp split: if_splits)
    with k' bounding_boxes_loop_keys [OF tc(1)] show ?thesis by auto
  next
    case 4
    with m tg(2) have "m = tg" by (simp split: if_splits)
    with k' ligatures_loop_keys [OF tg(1)] show ?thesis by auto
  qed
qed

lemma no_glyph_tables:
  "asdict_body n v ed (Inr []) (Inr []) (Inr []) (Inr []) = Inr d \<Longrightarrow> t \<in> set glyph_tables
     \<Longrightarrow> dict_get d t = None"
  by (auto simp: dict_get_def asdict_body_map glyph_tables_def)

lemma smufl_iter_restrict:
  "smufl_iter (f\<lparr>glyphs := filter in_smufl_range (glyphs f)\<rparr>) = smufl_iter f"
  by (simp add: smufl_iter_def in_smufl_range_def)

lemma smufl_iter_Nil: "(\<forall>g\<in>set (glyphs f). \<not> in_smufl_range g) \<Longrightarrow> smufl_iter f = []"
  by (auto simp: smufl_iter_def in_smufl_range_def filter_empty_conv)

lemma smufl_iter_filter: "smufl_iter f = filter in_smufl_range (glyphs f)"
  by (simp add: smufl_iter_def in_smufl_range_def [abs_def])

lemma alternate_cong:
  "font_getitem f2 n = font_getitem f n \<Longrightarrow> alternate res f2 n = alternate res f n"
  by (simp add: alternate_def)

lemma substitutes_loop_cong:
  "(\<And>n. n \<in> set names \<Longrightarrow> font_getitem f2 n = font_getitem f n)
     \<Longrightarrow> substitutes_loop res f2 names acc = substitutes_loop res f names acc"
proof (induction names arbitrary: acc)
  case Nil
  show ?case by simp
next
  case (Cons n names)
  have "alternate res f2 n = alternate res f n"
    by (rule alternate_cong) (simp add: Cons.prems)
  moreover have "substitutes_loop res f2 names acc' = substitutes_loop res f names acc'" for acc'
    by (rule Cons.IH) (simp add: Cons.prems)
  ultimately show ?case by (simp split: sum.splits)
qed

lemma altsubs_loop_cong:
  "(\<And>n. n \<in> set (concat (map (\<lambda>table. snd (snd table)) tables))
       \<Longrightarrow> font_getitem f2 n = font_getitem f n)
     \<Longrightarrow> altsubs_loop res f2 tables acc = altsubs_loop res f tables acc"
proof (induction tables arbitrary: acc)
  case Nil
  show ?case by simp
next
  case (Cons table tables)
  obtain subtable kind names where t: "table = (subtable, kind, names)"
    by (cases table) auto
  have "substitutes_loop res f2 names acc = substitutes_loop res f names acc"
    by (rule substitutes_loop_cong) (simp add: Cons.prems t)
  moreover have "altsubs_loop res f2 tables acc' = altsubs_loop res f tables acc'" for acc'
    by (rule Cons.IH) (simp add: Cons.prems)
  ultimately show ?case by (simp add: t split: sum.splits)
qed

lemma char_alternates_cong:
  assumes "\<And>n. n \<in> set (substitute_names g) \<Longrightarrow> font_getitem f2 n = font_getitem f n"
  shows "char_alternates res f2 g = char_alternates res f g"
  unfolding char_alternates_def
  by (rule altsubs_loop_cong) (use assms in \<open>simp add: substitute_names_def\<close>)

lemma alternates_loop_cong:
  "(\<And>g n. g \<in> set gs \<Longrightarrow> n \<in> set (substitute_names g)
       \<Longrightarrow> font_getitem f2 n = font_getitem f n)
     \<Longrightarrow> alternates_loop res f2 gs all = alternates_loop res f gs all"
proof (induction gs arbitrary: all)
  case Nil
  show ?case by simp
next
  case (Cons g gs)
  have "char_alternates res f2 g = char_alternates res f g"
    by (rule char_alternates_cong) (use Cons.prems in auto)
  moreover have "alternates_loop res f2 gs all' = alternates_loop res f gs all'" for all'
    by (rule Cons.IH) (use Cons.prems in auto)
  ultimately show ?case by (simp split: sum.splits)
qed

text \<open>
  Claim C1, as amended.  In the dictionary \<open>asdict\<close> returns, every key of
  \<open>glyphsWithAnchors\<close>, \<open>glyphsWithAlternates\<close>, \<open>glyphBBoxes\<close> and \<open>ligatures\<close> is
  the resolved name of a glyph of the font whose code point lies in
  \<open>[57344, 62463]\<close>, and a font with no glyph in the range has none of the four
  tables.  A glyph outside the range adds nothing to the tables of anchors, bounding
  boxes and ligatures: they are the same when the glyphs outside the range are
  removed from the font.  The table of alternates depends on the glyphs outside the
  range only through \<open>font[name]\<close> for the substitute names of the glyphs of the
  range: two fonts with the same glyphs of the range and the same glyphs under these
  names have the same table.  Both for \<open>ffsmufl.py\<close> and for
  \<open>ff_smufl_metadata.py\<close>.
\<close>

theorem smufl_range_keys:
  "(asdict tbl sf = Inr d \<longrightarrow> t \<in> set glyph_tables \<longrightarrow> dict_get d t = Some (PDict m)
      \<longrightarrow> k \<in> set (dict_keys m)
      \<longrightarrow> (\<exists>g\<in>set (glyphs (font sf)). 57344 \<le> unicode g \<and> unicode g \<le> 62463
             \<and> canonical_glyphname tbl (unicode g) True = Inr k))
   \<and> (SmuflMetadata_asdict tbl f ed = Inr d \<longrightarrow> t \<in> set glyph_tables
      \<longrightarrow> dict_get d t = Some (PDict m) \<longrightarrow> k \<in> set (dict_keys m)
      \<longrightarrow> (\<exists>g\<in>set (glyphs f). 57344 \<le> unicode g \<and> unicode g \<le> 62463
             \<and> smufl_canonical_name tbl g True = Inr k))
   \<and> ((\<forall>g\<in>set (glyphs (font sf)). \<not> (57344 \<le> unicode g \<and> unicode g \<le> 62463))
      \<longrightarrow> (\<exists>d0. asdict tbl sf = Inr d0 \<and> (\<forall>t\<in>set glyph_tables. dict_get d0 t = None)))
   \<and> ((\<forall>g\<in>set (glyphs f). \<not> (57344 \<le> unicode g \<and> unicode g \<le> 62463))
      \<longrightarrow> (\<exists>d0. SmuflMetadata_asdict tbl f ed = Inr d0
             \<and> (\<forall>t\<in>set glyph_tables. dict_get d0 t = None)))
   \<and> anchors tbl (sf\<lparr>font := (font sf)\<lparr>glyphs := filter in_smufl_range (glyphs (font sf))\<rparr>\<rparr>)
        = anchors tbl sf
   \<and> bounding_boxes tbl (sf\<lparr>font := (font sf)\<lparr>glyphs := filter in_smufl_range (glyphs (font sf))\<rparr>\<rparr>)
        = bounding_boxes tbl sf
   \<and> ligatures tbl (sf\<lparr>font := (font sf)\<lparr>glyphs := filter in_smufl_range (glyphs (font sf))\<rparr>\<rparr>)
        = ligatures tbl sf
   \<and> glyphsWithAnchors tbl (f\<lparr>glyphs := filter in_smufl_range (glyphs f)\<rparr>) = glyphsWithAnchors tbl f
   \<and> glyphBBoxes tbl (f\<lparr>glyphs := filter in_smufl_range (glyphs f)\<rparr>) = glyphBBoxes tbl f
   \<and> ligatures_md tbl (f\<lparr>glyphs := filter in_smufl_range (glyphs f)\<rparr>) = ligatures_md tbl f
   \<and> (filter in_smufl_range (glyphs (font sf')) = filter in_smufl_range (glyphs (font sf))
        \<longrightarrow> (\<forall>g\<in>set (glyphs (font sf)). in_smufl_range g \<longrightarrow>
               (\<forall>n\<in>set (substitute_names g).
                  font_getitem (font sf') n = font_getitem (font sf) n))
        \<longrightarrow> alternates tbl sf' = alternates tbl sf)
   \<and> (filter in_smufl_range (glyphs f') = filter in_smufl_range (glyphs f)
        \<longrightarrow> (\<forall>g\<in>set (glyphs f). in_smufl_range g \<longrightarrow>
               (\<forall>n\<in>set (substitute_names g). font_getitem f' n = font_getitem f n))
        \<longrightarrow> glyphsWithAlternates tbl f' = glyphsWithAlternates tbl f)"
proof (intro conjI impI)
  assume "asdict tbl sf = Inr d" "t \<in> set glyph_tables" "dict_get d t = Some (PDict m)"
    "k \<in> set (dict_keys m)"
  from table_key_resolved [OF this(1) [unfolded asdict_def anchors_def alternates_def
        bounding_boxes_def ligatures_def] this(2-)]
  obtain g where "g \<in> set (smufl_iter (font sf))" "canonical tbl g = Inr k"
    by blast
  then show "\<exists>g\<in>set (glyphs (font sf)). 57344 \<le> unicode g \<and> unicode g \<le> 62463
             \<and> canonical_glyphname tbl (unicode g) True = Inr k"
    by (auto simp: smufl_iter_set in_smufl_range_def canonical_def)
next
  assume "SmuflMetadata_asdict tbl f ed = Inr d" "t \<in> set glyph_tables"
    "dict_get d t = Some (PDict m)" "k \<in> set (dict_keys m)"
  from table_key_resolved [OF this(1) [unfolded SmuflMetadata_asdict_def glyphsWithAnchors_def
        glyphsWithAlternates_def glyphBBoxes_def ligatures_md_def] this(2-)]
  obtain g where "g \<in> set (smufl_iter f)" "smufl_name tbl g = Inr k"
    by blast
  then show "\<exists>g\<in>set (glyphs f). 57344 \<le> unicode g \<and> unicode g \<le> 62463
             \<and> smufl_canonical_name tbl g True = Inr k"
    by (auto simp: smufl_iter_set in_smufl_range_def smufl_name_def)
next
  assume "\<forall>g\<in>set (glyphs (font sf)). \<not> (57344 \<le> unicode g \<and> unicode g \<le> 62463)"
  then have nil: "smufl_iter (font sf) = []"
    by (intro smufl_iter_Nil) (simp add: in_smufl_range_def)
  have "\<exists>d0. asdict tbl sf = Inr d0"
    by (simp add: asdict_def asdict_body_def anchors_def alternates_def bounding_boxes_def
        ligatures_def nil put_if_def Let_def)
  then obtain d0 where d0: "asdict tbl sf = Inr d0" ..
  from d0 have "asdict_body (fontname (font sf)) (version (font sf)) (engraving_defaults sf)
      (Inr []) (Inr []) (Inr []) (Inr []) = Inr d0"
    by (simp add: asdict_def anchors_def alternates_def bounding_boxes_def ligatures_def nil)
  from no_glyph_tables [OF this] d0
  show "\<exists>d0. asdict tbl sf = Inr d0 \<and> (\<forall>t\<in>set glyph_tables. dict_get d0 t = None)"
    by blast
next
  assume "\<forall>g\<in>set (glyphs f). \<not> (57344 \<le> unicode g \<and> unicode g \<le> 62463)"
  then have nil: "smufl_iter f = []"
    by (intro smufl_iter_Nil) (simp add: in_smufl_range_def)
  have "\<exists>d0. SmuflMetadata_asdict tbl f ed = Inr d0"
    by (simp add: SmuflMetadata_asdict_def asdict_body_def glyphsWithAnchors_def
        glyphsWithAlternates_def glyphBBoxes_def ligatures_md_def nil put_if_def Let_def)
  then obtain d0 where d0: "SmuflMetadata_asdict tbl f ed = Inr d0" ..
  from d0 have "asdict_body (fontname f) (version f) ed (Inr []) (Inr []) (Inr []) (Inr []) = Inr d0"
    by (simp add: SmuflMetadata_asdict_def glyphsWithAnchors_def
        glyphsWithAlternates_def glyphBBoxes_def ligatures_md_def nil)
  from no_glyph_tables [OF this] d0
  show "\<exists>d0. SmuflMetadata_asdict tbl f ed = Inr d0
             \<and> (\<forall>t\<in>set glyph_tables. dict_get d0 t = None)"
    by blast
next
  assume same: "filter in_smufl_range (glyphs (font sf')) = filter in_smufl_range (glyphs (font sf))"
    and look: "\<forall>g\<in>set (glyphs (font sf)). in_smufl_range g \<longrightarrow>
               (\<forall>n\<in>set (substitute_names g).
                  font_getitem (font sf') n = font_getitem (font sf) n)"
  from same have it: "smufl_iter (font sf') = smufl_iter (font sf)"
    by (simp add: smufl_iter_filter)
  show "alternates tbl sf' = alternates tbl sf"
    unfolding alternates_def it
    by (rule alternates_loop_cong) (use look in \<open>auto simp: smufl_iter_set\<close>)
next
  assume same: "filter in_smufl_range (glyphs f') = filter in_smufl_range (glyphs f)"
    and look: "\<forall>g\<in>set (glyphs f). in_smufl_range g \<longrightarrow>
               (\<forall>n\<in>set (substitute_names g). font_getitem f' n = font_getitem f n)"
  from same have it: "smufl_iter f' = smufl_iter f"
    by (simp add: smufl_iter_filter)
  show "glyphsWithAlternates tbl f' = glyphsWithAlternates tbl f"
    unfolding glyphsWithAlternates_def it
    by (rule alternates_loop_cong) (use look in \<open>auto simp: smufl_iter_set\<close>)
qed (simp_all add: anchors_def bounding_boxes_def ligatures_def glyphsWithAnchors_def
    glyphBBoxes_def ligatures_md_def smufl_iter_restrict)


section \<open>Name lookup and the three implementations\<close>

text \<open>
  Claim C5, as amended.  When the formatted code point is a key of the table, both
  \<open>canonical_glyphname\<close> and \<open>smufl_canonical_name\<close> return the name the table gives,
  whatever \<open>fallback\<close> is.  When it is not a key, both raise \<open>ValueError\<close> with
  \<open>fallback\<close> off, and \<open>smufl_canonical_name\<close> returns the glyph's own name
  unchanged with \<open>fallback\<close> on.
\<close>

theorem canonical_name_lookup:
  "(tbl (format_codepoint c) = Some name \<longrightarrow> canonical_glyphname tbl c fallback = Inr name)
   \<and> (tbl (format_codepoint (unicode g)) = Some name
        \<longrightarrow> smufl_canonical_name tbl g fallback = Inr name)
   \<and> (tbl (format_codepoint c) = None \<longrightarrow> canonical_glyphname tbl c False = Inl ValueError)
   \<and> (tbl (format_codepoint (unicode g)) = None
        \<longrightarrow> smufl_canonical_name tbl g False = Inl ValueError
          \<and> smufl_canonical_name tbl g True = Inr (glyphname g))"
  by (simp add: canonical_glyphname_def smufl_canonical_name_def smufl_codepoint_def)

theorem canonical_name_lookup_witness:
  "example_table (format_codepoint 57344) = Some ''noteheadBlack''
   \<and> canonical_glyphname example_table 57344 True = Inr ''noteheadBlack''
   \<and> smufl_canonical_name example_table notehead False = Inr ''noteheadBlack''
   \<and> example_table (format_codepoint 62463) = None
   \<and> canonical_glyphname example_table 62463 False = Inl ValueError
   \<and> smufl_canonical_name example_table custom_glyph False = Inl ValueError
   \<and> smufl_canonical_name example_table custom_glyph True = Inr ''myGlyph''"
proof -
  have a: "example_table (format_codepoint 57344) = Some ''noteheadBlack''"
    and b: "example_table (format_codepoint (unicode notehead)) = Some ''noteheadBlack''"
    and c: "example_table (format_codepoint 62463) = None"
    and d: "example_table (format_codepoint (unicode custom_glyph)) = None"
    by (simp_all add: example_defs format_codepoint_E000 format_codepoint_F3FF)
  from canonical_name_lookup [of example_table 57344 "''noteheadBlack''" True notehead] a
  have 1: "canonical_glyphname example_table 57344 True = Inr ''noteheadBlack''" by blast
  from canonical_name_lookup [of example_table 57344 "''noteheadBlack''" False notehead] b
  have 2: "smufl_canonical_name example_table notehead False = Inr ''noteheadBlack''" by blast
  from canonical_name_lookup [of example_table 62463 "''noteheadBlack''" False custom_glyph] c d
  have 3: "canonical_glyphname example_table 62463 False = Inl ValueError"
    "smufl_canonical_name example_table custom_glyph False = Inl ValueError"
    "smufl_canonical_name example_table custom_glyph True = Inr (glyphname custom_glyph)"
    by blast+
  from 3(3) have 4: "smufl_canonical_name example_table custom_glyph True = Inr ''myGlyph''"
    by (simp add: custom_glyph_def)
  from a c 1 2 3 4 show ?thesis by blast
qed

text \<open>
  The claim as stated fails: with \<open>fallback\<close> off the exception is \<open>ValueError\<close>,
  which is not a \<open>LookupError\<close>; and \<open>canonical_glyphname\<close> of \<open>ffsmufl.py\<close> with
  \<open>fallback\<close> on raises \<open>NameError\<close> instead of returning a name.
\<close>

theorem canonical_name_lookup_counterexample:
  "example_table (format_codepoint 62463) = None
   \<and> smufl_canonical_name example_table custom_glyph False = Inl ValueError
   \<and> canonical_glyphname example_table 62463 False = Inl ValueError
   \<and> \<not> is_LookupError ValueError
   \<and> canonical_glyphname example_table 62463 True = Inl NameError"
  by (simp add: example_defs table_defs)

text \<open>
  Claim C10.  The three \<open>asdict\<close> methods do not agree on a font with a glyph of the
  SMuFL range whose code point the table does not name: \<open>ffsmufl.py\<close> and
  \<open>ff-smufl.py\<close> raise \<open>NameError\<close>, \<open>ff_smufl_metadata.py\<close> returns a dictionary in
  which the glyph stands under its own name.
\<close>

theorem asdict_implementations_differ:
  "asdict example_table (smufl_font_of [custom_glyph]) = Inl NameError
   \<and> script_asdict example_table (smufl_font_of [custom_glyph]) PNone = Inl NameError
   \<and> SmuflMetadata_asdict example_table (font_of [custom_glyph]) PNone =
       Inr [(''fontName'', PStr ''Sebastian''), (''fontVersion'', PStr ''1.0''),
            (''glyphsWithAnchors'',
             PDict [(''myGlyph'', PDict [(''stemUpSE'', PTuple [PNum (nearest_double (4 / 25)), PNum (nearest_double (2 / 5))])])]),
            (''glyphBBoxes'',
             PDict [(''myGlyph'',
                     PDict [(''bBoxNE'', PTuple [PNum 1, PNum 1]),
                            (''bBoxSW'', PTuple [PNum 0, PNum 0])])])]"
  by (simp add: asdict_def script_asdict_def SmuflMetadata_asdict_def asdict_body_def put_if_def
      example_defs table_defs)

section \<open>Bounding boxes\<close>

lemma canonical_Inr_iff: "canonical tbl g = Inr k \<longleftrightarrow> tbl (format_codepoint (unicode g)) = Some k"
  by (simp add: canonical_def canonical_glyphname_def split: option.splits)

lemma canonical_total:
  "tbl (format_codepoint (unicode g)) \<noteq> None \<Longrightarrow> \<exists>k. canonical tbl g = Inr k"
  by (auto simp: canonical_Inr_iff)

lemma bounding_boxes_loop_total_on:
  "(\<And>g. g \<in> set gs \<Longrightarrow> \<exists>k. res g = Inr k) \<Longrightarrow> \<exists>m. bounding_boxes_loop res gs all = Inr m"
proof (induction gs arbitrary: all)
  case Nil
  show ?case by simp
next
  case (Cons g gs)
  from Cons.prems obtain k where "res g = Inr k" by auto
  moreover from Cons.prems have "\<exists>m. bounding_boxes_loop res gs (dict_set k (bounding_box g) all) = Inr m"
    by (intro Cons.IH) auto
  ultimately show ?case by simp
qed

lemma bounding_box_eq:
  "boundingBox g = (xmin, ymin, xmax, ymax) \<Longrightarrow>
     bounding_box g =
       PDict [(''bBoxNE'', PTuple [PNum (em_to_spaces xmax), PNum (em_to_spaces ymax)]),
              (''bBoxSW'', PTuple [PNum (em_to_spaces xmin), PNum (em_to_spaces ymin)])]"
  by (simp add: bounding_box_def)

lemma bounding_boxes_loop_table:
  assumes run: "bounding_boxes_loop res (smufl_iter f) [] = Inr m"
  shows "set (dict_keys m) = {k. \<exists>g\<in>set (glyphs f). in_smufl_range g \<and> res g = Inr k}"
    and "\<forall>g\<in>set (glyphs f). in_smufl_range g \<longrightarrow> (\<exists>k. res g = Inr k \<and> k \<in> set (dict_keys m))"
    and "\<forall>g\<in>set (glyphs f). in_smufl_range g \<longrightarrow>
          (\<forall>g'\<in>set (glyphs f). in_smufl_range g' \<longrightarrow> res g' = res g \<longrightarrow> g' = g) \<longrightarrow>
          (\<forall>xmin ymin xmax ymax. boundingBox g = (xmin, ymin, xmax, ymax) \<longrightarrow>
             (\<exists>k. res g = Inr k \<and> dict_get m k =
                Some (PDict [(''bBoxNE'', PTuple [PNum (em_to_spaces xmax), PNum (em_to_spaces ymax)]),
                             (''bBoxSW'', PTuple [PNum (em_to_spaces xmin), PNum (em_to_spaces ymin)])])))"
proof -
  from bounding_boxes_loop_keys [OF run]
  show keys: "set (dict_keys m) = {k. \<exists>g\<in>set (glyphs f). in_smufl_range g \<and> res g = Inr k}"
    by (auto simp: dict_keys_def smufl_iter_set)
  from bounding_boxes_loop_shape [OF run] obtain kvs where
    rel: "list_all2 (\<lambda>g kv. res g = Inr (fst kv) \<and> snd kv = bounding_box g) (smufl_iter f) kvs"
    by blast
  show "\<forall>g\<in>set (glyphs f). in_smufl_range g \<longrightarrow> (\<exists>k. res g = Inr k \<and> k \<in> set (dict_keys m))"
  proof (intro ballI impI)
    fix g assume g: "g \<in> set (glyphs f)" "in_smufl_range g"
    then have "g \<in> set (smufl_iter f)" by (simp add: smufl_iter_set)
    from rel_left [OF rel this] obtain k where "res g = Inr k" by blast
    with g keys show "\<exists>k. res g = Inr k \<and> k \<in> set (dict_keys m)" by blast
  qed
  show "\<forall>g\<in>set (glyphs f). in_smufl_range g \<longrightarrow>
          (\<forall>g'\<in>set (glyphs f). in_smufl_range g' \<longrightarrow> res g' = res g \<longrightarrow> g' = g) \<longrightarrow>
          (\<forall>xmin ymin xmax ymax. boundingBox g = (xmin, ymin, xmax, ymax) \<longrightarrow>
             (\<exists>k. res g = Inr k \<and> dict_get m k =
                Some (PDict [(''bBoxNE'', PTuple [PNum (em_to_spaces xmax), PNum (em_to_spaces ymax)]),
                             (''bBoxSW'', PTuple [PNum (em_to_spaces xmin), PNum (em_to_spaces ymin)])])))"
  proof (intro ballI impI allI)
    fix g xmin ymin xmax ymax
    assume g: "g \<in> set (glyphs f)" "in_smufl_range g"
      and uniq: "\<forall>g'\<in>set (glyphs f). in_smufl_range g' \<longrightarrow> res g' = res g \<longrightarrow> g' = g"
      and box: "boundingBox g = (xmin, ymin, xmax, ymax)"
    from g have "g \<in> set (smufl_iter f)" by (simp add: smufl_iter_set)
    moreover have "g' = g" if "g' \<in> set (smufl_iter f)" "res g' = res g" for g'
      using that uniq by (simp add: smufl_iter_set)
    ultimately obtain k where "res g = Inr k" "map_of m k = Some (bounding_box g)"
      using bounding_boxes_loop_entry [OF run] by blast
    then show "\<exists>k. res g = Inr k \<and> dict_get m k =
                Some (PDict [(''bBoxNE'', PTuple [PNum (em_to_spaces xmax), PNum (em_to_spaces ymax)]),
                             (''bBoxSW'', PTuple [PNum (em_to_spaces xmin), PNum (em_to_spaces ymin)])])"
      by (simp add: dict_get_def bounding_box_eq [OF box])
  qed
qed

text \<open>
  Claim C4, as amended.  Whenever the computation of \<open>glyphBBoxes\<close> returns a table
  (\<open>glyphBBoxes\<close> of \<open>ff_smufl_metadata.py\<close> always does, \<open>bounding_boxes\<close> of
  \<open>ffsmufl.py\<close> does when the table names the code point of every glyph of the SMuFL
  range), the keys of the table are exactly the resolved names of the glyphs with a
  code point in \<open>[57344, 62463]\<close>, so every such glyph appears, and a glyph whose
  resolved name no other glyph of the range shares is mapped to the record
  \<open>{bBoxNE: (round(xmax/250, 3), round(ymax/250, 3)), bBoxSW: (round(xmin/250, 3),
  round(ymin/250, 3))}\<close> of its own extents.
\<close>

theorem bounding_boxes_table:
  "(bounding_boxes tbl sf = Inr m \<longrightarrow>
      set (dict_keys m) = {k. \<exists>g\<in>set (glyphs (font sf)). in_smufl_range g
                               \<and> canonical_glyphname tbl (unicode g) True = Inr k}
      \<and> (\<forall>g\<in>set (glyphs (font sf)). in_smufl_range g \<longrightarrow>
            (\<exists>k. canonical_glyphname tbl (unicode g) True = Inr k \<and> k \<in> set (dict_keys m)))
      \<and> (\<forall>g\<in>set (glyphs (font sf)). in_smufl_range g \<longrightarrow>
            (\<forall>g'\<in>set (glyphs (font sf)). in_smufl_range g' \<longrightarrow>
                canonical_glyphname tbl (unicode g') True = canonical_glyphname tbl (unicode g) True
                \<longrightarrow> g' = g) \<longrightarrow>
            (\<forall>xmin ymin xmax ymax. boundingBox g = (xmin, ymin, xmax, ymax) \<longrightarrow>
               (\<exists>k. canonical_glyphname tbl (unicode g) True = Inr k \<and> dict_get m k =
                  Some (PDict [(''bBoxNE'', PTuple [PNum (em_to_spaces xmax), PNum (em_to_spaces ymax)]),
                               (''bBoxSW'', PTuple [PNum (em_to_spaces xmin), PNum (em_to_spaces ymin)])])))))
   \<and> ((\<forall>g\<in>set (glyphs (font sf)). in_smufl_range g \<longrightarrow> tbl (format_codepoint (unicode g)) \<noteq> None)
        \<longrightarrow> (\<exists>m. bounding_boxes tbl sf = Inr m))
   \<and> (\<exists>m. glyphBBoxes tbl f = Inr m)
   \<and> (glyphBBoxes tbl f = Inr m' \<longrightarrow>
      set (dict_keys m') = {k. \<exists>g\<in>set (glyphs f). in_smufl_range g
                               \<and> smufl_canonical_name tbl g True = Inr k}
      \<and> (\<forall>g\<in>set (glyphs f). in_smufl_range g \<longrightarrow>
            (\<exists>k. smufl_canonical_name tbl g True = Inr k \<and> k \<in> set (dict_keys m')))
      \<and> (\<forall>g\<in>set (glyphs f). in_smufl_range g \<longrightarrow>
            (\<forall>g'\<in>set (glyphs f). in_smufl_range g' \<longrightarrow>
                smufl_canonical_name tbl g' True = smufl_canonical_name tbl g True \<longrightarrow> g' = g) \<longrightarrow>
            (\<forall>xmin ymin xmax ymax. boundingBox g = (xmin, ymin, xmax, ymax) \<longrightarrow>
               (\<exists>k. smufl_canonical_name tbl g True = Inr k \<and> dict_get m' k =
                  Some (PDict [(''bBoxNE'', PTuple [PNum (em_to_spaces xmax), PNum (em_to_spaces ymax)]),
                               (''bBoxSW'', PTuple [PNum (em_to_spaces xmin), PNum (em_to_spaces ymin)])])))))"
proof (intro conjI impI)
  assume run: "bounding_boxes tbl sf = Inr m"
  note t = bounding_boxes_loop_table [OF run [unfolded bounding_boxes_def], unfolded canonical_def]
  from t(1) show "set (dict_keys m) = {k. \<exists>g\<in>set (glyphs (font sf)). in_smufl_range g
                               \<and> canonical_glyphname tbl (unicode g) True = Inr k}" .
  from t(2) show "\<forall>g\<in>set (glyphs (font sf)). in_smufl_range g \<longrightarrow>
            (\<exists>k. canonical_glyphname tbl (unicode g) True = Inr k \<and> k \<in> set (dict_keys m))" .
  from t(3) show "\<forall>g\<in>set (glyphs (font sf)). in_smufl_range g \<longrightarrow>
            (\<forall>g'\<in>set (glyphs (font sf)). in_smufl_range g' \<longrightarrow>
                canonical_glyphname tbl (unicode g') True = canonical_glyphname tbl (unicode g) True
                \<longrightarrow> g' = g) \<longrightarrow>
            (\<forall>xmin ymin xmax ymax. boundingBox g = (xmin, ymin, xmax, ymax) \<longrightarrow>
               (\<exists>k. canonical_glyphname tbl (unicode g) True = Inr k \<and> dict_get m k =
                  Some (PDict [(''bBoxNE'', PTuple [PNum (em_to_spaces xmax), PNum (em_to_spaces ymax)]),
                               (''bBoxSW'', PTuple [PNum (em_to_spaces xmin), PNum (em_to_spaces ymin)])])))" .
next
  assume named: "\<forall>g\<in>set (glyphs (font sf)). in_smufl_range g \<longrightarrow> tbl (format_codepoint (unicode g)) \<noteq> None"
  show "\<exists>m. bounding_boxes tbl sf = Inr m"
    unfolding bounding_boxes_def
  proof (rule bounding_boxes_loop_total_on)
    fix g assume "g \<in> set (smufl_iter (font sf))"
    with named show "\<exists>k. canonical tbl g = Inr k"
      by (intro canonical_total) (simp add: smufl_iter_set)
  qed
next
  show "\<exists>m. glyphBBoxes tbl f = Inr m"
    unfolding glyphBBoxes_def
    by (rule bounding_boxes_loop_total_on) (simp add: smufl_name_Inr)
next
  assume run: "glyphBBoxes tbl f = Inr m'"
  note t = bounding_boxes_loop_table [OF run [unfolded glyphBBoxes_def], unfolded smufl_name_def]
  from t(1) show "set (dict_keys m') = {k. \<exists>g\<in>set (glyphs f). in_smufl_range g
                               \<and> smufl_canonical_name tbl g True = Inr k}" .
  from t(2) show "\<forall>g\<in>set (glyphs f). in_smufl_range g \<longrightarrow>
            (\<exists>k. smufl_canonical_name tbl g True = Inr k \<and> k \<in> set (dict_keys m'))" .
  from t(3) show "\<forall>g\<in>set (glyphs f). in_smufl_range g \<longrightarrow>
            (\<forall>g'\<in>set (glyphs f). in_smufl_range g' \<longrightarrow>
                smufl_canonical_name tbl g' True = smufl_canonical_name tbl g True \<longrightarrow> g' = g) \<longrightarrow>
            (\<forall>xmin ymin xmax ymax. boundingBox g = (xmin, ymin, xmax, ymax) \<longrightarrow>
               (\<exists>k. smufl_canonical_name tbl g True = Inr k \<and> dict_get m' k =
                  Some (PDict [(''bBoxNE'', PTuple [PNum (em_to_spaces xmax), PNum (em_to_spaces ymax)]),
                               (''bBoxSW'', PTuple [PNum (em_to_spaces xmin), PNum (em_to_spaces ymin)])])))" .
qed

theorem bounding_boxes_table_witness:
  "bounding_boxes example_table (smufl_font_of [notehead]) =
     Inr [(''noteheadBlack'',
           PDict [(''bBoxNE'', PTuple [PNum (nearest_double (59 / 50)), PNum (1 / 2)]),
                  (''bBoxSW'', PTuple [PNum 0, PNum (- (1 / 2))])])]
   \<and> (\<exists>k. canonical_glyphname example_table (unicode notehead) True = Inr k
         \<and> dict_get [(''noteheadBlack'',
                       PDict [(''bBoxNE'', PTuple [PNum (nearest_double (59 / 50)), PNum (1 / 2)]),
                              (''bBoxSW'', PTuple [PNum 0, PNum (- (1 / 2))])])] k =
             Some (PDict [(''bBoxNE'', PTuple [PNum (em_to_spaces 295), PNum (em_to_spaces 125)]),
                          (''bBoxSW'', PTuple [PNum (em_to_spaces 0), PNum (em_to_spaces (- 125))])]))
   \<and> (\<exists>m. bounding_boxes example_table (smufl_font_of [notehead]) = Inr m)
   \<and> glyphBBoxes example_table (font_of [custom_glyph]) =
       Inr [(''myGlyph'',
             PDict [(''bBoxNE'', PTuple [PNum 1, PNum 1]), (''bBoxSW'', PTuple [PNum 0, PNum 0])])]
   \<and> (\<exists>k. smufl_canonical_name example_table custom_glyph True = Inr k
         \<and> k \<in> set (dict_keys [(''myGlyph'',
             PDict [(''bBoxNE'', PTuple [PNum 1, PNum 1]), (''bBoxSW'', PTuple [PNum 0, PNum 0])])]))"
proof -
  note t = bounding_boxes_table [where tbl = example_table and sf = "smufl_font_of [notehead]"
      and m = "[(''noteheadBlack'',
           PDict [(''bBoxNE'', PTuple [PNum (nearest_double (59 / 50)), PNum (1 / 2)]),
                  (''bBoxSW'', PTuple [PNum 0, PNum (- (1 / 2))])])]"
      and f = "font_of [custom_glyph]"
      and m' = "[(''myGlyph'',
             PDict [(''bBoxNE'', PTuple [PNum 1, PNum 1]), (''bBoxSW'', PTuple [PNum 0, PNum 0])])]"]
  have run': "glyphBBoxes example_table (font_of [custom_glyph]) =
       Inr [(''myGlyph'',
             PDict [(''bBoxNE'', PTuple [PNum 1, PNum 1]), (''bBoxSW'', PTuple [PNum 0, PNum 0])])]"
    by (simp add: example_defs table_defs)
  have g: "notehead \<in> set (glyphs (font (smufl_font_of [notehead])))" "in_smufl_range notehead"
    "boundingBox notehead = (0, - 125, 295, 125)"
    by (simp_all add: example_defs in_smufl_range_def)
  have u: "g' = notehead" if "g' \<in> set (glyphs (font (smufl_font_of [notehead])))" for g'
    using that by (simp add: smufl_font_of_def font_of_def)
  have named: "\<forall>g\<in>set (glyphs (font (smufl_font_of [notehead]))). in_smufl_range g \<longrightarrow>
      example_table (format_codepoint (unicode g)) \<noteq> None"
    by (simp add: example_defs format_codepoint_E000)
  have h: "custom_glyph \<in> set (glyphs (font_of [custom_glyph]))" "in_smufl_range custom_glyph"
    by (simp_all add: example_defs in_smufl_range_def)
  note A = t [THEN conjunct1, THEN mp, OF scenario_bounding_boxes]
  note 1 = A [THEN conjunct2, THEN conjunct2, rule_format, OF g(1) g(2) u g(3)]
  note 2 = t [THEN conjunct2, THEN conjunct1, THEN mp, OF named]
  note D = t [THEN conjunct2, THEN conjunct2, THEN conjunct2, THEN mp, OF run']
  note 3 = D [THEN conjunct2, THEN conjunct1, rule_format, OF h]
  show ?thesis
    using scenario_bounding_boxes run' 1 2 3 by (intro conjI) assumption+
qed

text \<open>
  The claim as stated fails on a font with two glyphs at code point 57344: both
  resolve to \<open>noteheadBlack\<close>, and the one key holds the box of the second glyph, so
  the first glyph (\<open>xmax = 295\<close>, that is 1.18) is not mapped to its own extents.
  And \<open>bounding_boxes\<close> of \<open>ffsmufl.py\<close> returns no table at all for a font with a
  glyph of the range that the table does not name.
\<close>

theorem bounding_boxes_table_counterexample:
  "in_smufl_range notehead \<and> boundingBox notehead = (0, - 125, 295, 125)
   \<and> em_to_spaces 295 = nearest_double (59 / 50) \<and> nearest_double (59 / 50) \<noteq> 2
   \<and> glyphBBoxes example_table (font_of [notehead, notehead_wide]) =
       Inr [(''noteheadBlack'',
             PDict [(''bBoxNE'', PTuple [PNum 2, PNum (1 / 2)]),
                    (''bBoxSW'', PTuple [PNum 0, PNum (- (1 / 2))])])]
   \<and> bounding_boxes example_table (smufl_font_of [notehead, notehead_wide]) =
       Inr [(''noteheadBlack'',
             PDict [(''bBoxNE'', PTuple [PNum 2, PNum (1 / 2)]),
                    (''bBoxSW'', PTuple [PNum 0, PNum (- (1 / 2))])])]
   \<and> in_smufl_range custom_glyph
   \<and> bounding_boxes example_table (smufl_font_of [custom_glyph]) = Inl NameError"
  by (simp add: example_defs table_defs in_smufl_range_def)

section \<open>Anchors\<close>

lemma anchors_loop_total_on:
  "(\<And>g. g \<in> set gs \<Longrightarrow> char_anchors g \<noteq> [] \<Longrightarrow> \<exists>k. res g = Inr k)
     \<Longrightarrow> \<exists>m. anchors_loop res gs all = Inr m"
proof (induction gs arbitrary: all)
  case Nil
  show ?case by simp
next
  case (Cons g gs)
  have rest: "\<exists>m. anchors_loop res gs all' = Inr m" for all'
    using Cons.prems by (intro Cons.IH) auto
  show ?case
  proof (cases "char_anchors g = []")
    case True
    with rest show ?thesis by simp
  next
    case False
    with Cons.prems obtain k where "res g = Inr k" by auto
    with False rest show ?thesis by simp
  qed
qed

lemma anchors_loop_table:
  assumes run: "anchors_loop res (smufl_iter f) [] = Inr m"
  shows "set (dict_keys m) =
      {k. \<exists>g\<in>set (glyphs f). in_smufl_range g \<and> recognized_anchors g \<noteq> [] \<and> res g = Inr k}"
    and "\<forall>g\<in>set (glyphs f). in_smufl_range g \<longrightarrow> recognized_anchors g \<noteq> [] \<longrightarrow>
          (\<forall>g'\<in>set (glyphs f). in_smufl_range g' \<longrightarrow> recognized_anchors g' \<noteq> [] \<longrightarrow>
              res g' = res g \<longrightarrow> g' = g) \<longrightarrow>
          (\<exists>k. res g = Inr k \<and> dict_get m k = Some (PDict (char_anchors g)))"
proof -
  from anchors_loop_keys [OF run]
  show "set (dict_keys m) =
      {k. \<exists>g\<in>set (glyphs f). in_smufl_range g \<and> recognized_anchors g \<noteq> [] \<and> res g = Inr k}"
    by (auto simp: dict_keys_def smufl_iter_set char_anchors_Nil)
  show "\<forall>g\<in>set (glyphs f). in_smufl_range g \<longrightarrow> recognized_anchors g \<noteq> [] \<longrightarrow>
          (\<forall>g'\<in>set (glyphs f). in_smufl_range g' \<longrightarrow> recognized_anchors g' \<noteq> [] \<longrightarrow>
              res g' = res g \<longrightarrow> g' = g) \<longrightarrow>
          (\<exists>k. res g = Inr k \<and> dict_get m k = Some (PDict (char_anchors g)))"
  proof (intro ballI impI)
    fix g
    assume g: "g \<in> set (glyphs f)" "in_smufl_range g" "recognized_anchors g \<noteq> []"
      and uniq: "\<forall>g'\<in>set (glyphs f). in_smufl_range g' \<longrightarrow> recognized_anchors g' \<noteq> [] \<longrightarrow>
              res g' = res g \<longrightarrow> g' = g"
    from g have "g \<in> set (smufl_iter f)" "char_anchors g \<noteq> []"
      by (simp_all add: smufl_iter_set char_anchors_Nil)
    moreover have "g' = g"
      if "g' \<in> set (smufl_iter f)" "char_anchors g' \<noteq> []" "res g' = res g" for g'
      using that uniq by (simp add: smufl_iter_set char_anchors_Nil)
    ultimately show "\<exists>k. res g = Inr k \<and> dict_get m k = Some (PDict (char_anchors g))"
      unfolding dict_get_def by (rule anchors_loop_entry [OF run])
  qed
qed

lemma recognized_names:
  "fst ` set (recognized_anchors g) = {n \<in> fst ` set (anchorPoints g). n \<in> set valid_anchor_names}"
  by (auto simp: recognized_anchors_def)

lemma asdict_body_total:
  "\<exists>d. asdict_body n v ed (Inr ta) (Inr tb) (Inr tc) (Inr tg) = Inr d"
  by (simp add: asdict_body_def Let_def)

lemma scenario_general:
  assumes tbl: "tbl ''U+E000'' = Some ''noteheadBlack''"
    and f: "glyphs (font sf) = [g0]" and u: "unicode g0 = 57344"
    and a: "anchorPoints g0 = [(''stemUpSE'', ty, 40, 100)]" and r: "getPosSub g0 = []"
  shows "anchors tbl sf =
      Inr [(''noteheadBlack'', PDict [(''stemUpSE'', PTuple [PNum (nearest_double (4 / 25)), PNum (nearest_double (2 / 5))])])]"
    and "\<exists>d. asdict tbl sf = Inr d
      \<and> dict_get d ''glyphsWithAnchors'' =
          Some (PDict [(''noteheadBlack'',
                        PDict [(''stemUpSE'', PTuple [PNum (nearest_double (4 / 25)), PNum (nearest_double (2 / 5))])])])
      \<and> ''glyphsWithAlternates'' \<notin> set (dict_keys d) \<and> ''ligatures'' \<notin> set (dict_keys d)"
proof -
  have it: "smufl_iter (font sf) = [g0]"
    by (simp add: smufl_iter_def f u)
  have ca: "char_anchors g0 = [(''stemUpSE'', PTuple [PNum (nearest_double (4 / 25)), PNum (nearest_double (2 / 5))])]"
    by (simp add: char_anchors_def a valid_anchor_names_def em_to_spaces_values)
  have name: "canonical tbl g0 = Inr ''noteheadBlack''"
    by (simp add: canonical_def canonical_glyphname_def u format_codepoint_E000 tbl)
  show an: "anchors tbl sf =
      Inr [(''noteheadBlack'', PDict [(''stemUpSE'', PTuple [PNum (nearest_double (4 / 25)), PNum (nearest_double (2 / 5))])])]"
    by (simp add: anchors_def it ca name)
  have al: "alternates tbl sf = Inr []"
    by (simp add: alternates_def it char_alternates_def r)
  have bb: "bounding_boxes tbl sf = Inr [(''noteheadBlack'', bounding_box g0)]"
    by (simp add: bounding_boxes_def it name)
  have li: "ligatures tbl sf = Inr []"
    by (simp add: ligatures_def it name ligature_rules_def r)
  from asdict_body_total obtain d where d: "asdict_body (fontname (font sf)) (version (font sf))
      (engraving_defaults sf)
      (Inr [(''noteheadBlack'', PDict [(''stemUpSE'', PTuple [PNum (nearest_double (4 / 25)), PNum (nearest_double (2 / 5))])])])
      (Inr []) (Inr [(''noteheadBlack'', bounding_box g0)]) (Inr []) = Inr d"
    by blast
  then have "asdict tbl sf = Inr d"
    by (simp only: asdict_def an al bb li)
  moreover have "dict_get d ''glyphsWithAnchors'' =
          Some (PDict [(''noteheadBlack'',
                        PDict [(''stemUpSE'', PTuple [PNum (nearest_double (4 / 25)), PNum (nearest_double (2 / 5))])])])"
    by (simp add: dict_get_def asdict_body_map [OF d])
  moreover have "''glyphsWithAlternates'' \<notin> set (dict_keys d)"
    by (simp add: in_keys_iff asdict_body_map [OF d])
  moreover have "''ligatures'' \<notin> set (dict_keys d)"
    by (simp add: in_keys_iff asdict_body_map [OF d])
  ultimately show "\<exists>d. asdict tbl sf = Inr d
      \<and> dict_get d ''glyphsWithAnchors'' =
          Some (PDict [(''noteheadBlack'',
                        PDict [(''stemUpSE'', PTuple [PNum (nearest_double (4 / 25)), PNum (nearest_double (2 / 5))])])])
      \<and> ''glyphsWithAlternates'' \<notin> set (dict_keys d) \<and> ''ligatures'' \<notin> set (dict_keys d)"
    by blast
qed

text \<open>
  Claim C3, as amended.  For every glyph, the anchors kept are a dictionary: the
  recognized anchor points (name among the 21 of \<open>valid_anchor_names\<close>; any other
  name is dropped without error) are stored one after the other under their names, so
  its keys are exactly the recognized names among the glyph's anchor points, each
  name is mapped to the pair \<open>(round(x/250, 3), round(y/250, 3))\<close> of the last anchor
  point of that name, and when the recognized names are distinct the dictionary holds
  exactly the recognized anchor points in their order.  Whenever \<open>anchors\<close> returns a
  table (it does when the table names the code point of every glyph of the SMuFL
  range that has a recognized anchor), its keys are exactly the resolved names of the
  glyphs of the range with at least one recognized anchor, and such a glyph whose
  resolved name no other such glyph shares is mapped to its dictionary.  The
  scenario of the claim holds as stated.
\<close>

theorem anchors_extraction:
  "char_anchors g = dict_update (map anchor_item (recognized_anchors g)) []
   \<and> set (dict_keys (char_anchors g))
       = {n \<in> fst ` set (anchorPoints g). n \<in> set valid_anchor_names}
   \<and> dict_get (char_anchors g) n
       = map_option (\<lambda>a. snd (anchor_item a)) (find (\<lambda>a. fst a = n) (rev (recognized_anchors g)))
   \<and> (distinct (map fst (recognized_anchors g))
        \<longrightarrow> char_anchors g = map anchor_item (recognized_anchors g))
   \<and> length valid_anchor_names = 21 \<and> distinct valid_anchor_names
   \<and> (anchors tbl sf = Inr m \<longrightarrow>
        set (dict_keys m) =
          {k. \<exists>g\<in>set (glyphs (font sf)). in_smufl_range g \<and> recognized_anchors g \<noteq> []
                \<and> canonical_glyphname tbl (unicode g) True = Inr k}
        \<and> (\<forall>g\<in>set (glyphs (font sf)). in_smufl_range g \<longrightarrow> recognized_anchors g \<noteq> [] \<longrightarrow>
             (\<forall>g'\<in>set (glyphs (font sf)). in_smufl_range g' \<longrightarrow> recognized_anchors g' \<noteq> [] \<longrightarrow>
                 canonical_glyphname tbl (unicode g') True = canonical_glyphname tbl (unicode g) True
                 \<longrightarrow> g' = g) \<longrightarrow>
             (\<exists>k. canonical_glyphname tbl (unicode g) True = Inr k
                   \<and> dict_get m k = Some (PDict (char_anchors g)))))
   \<and> ((\<forall>g\<in>set (glyphs (font sf)). in_smufl_range g \<longrightarrow> recognized_anchors g \<noteq> []
          \<longrightarrow> tbl (format_codepoint (unicode g)) \<noteq> None)
        \<longrightarrow> (\<exists>m. anchors tbl sf = Inr m))
   \<and> (tbl ''U+E000'' = Some ''noteheadBlack'' \<longrightarrow> glyphs (font sf) = [g0] \<longrightarrow> unicode g0 = 57344
        \<longrightarrow> anchorPoints g0 = [(''stemUpSE'', ty, 40, 100)] \<longrightarrow> getPosSub g0 = []
        \<longrightarrow> anchors tbl sf =
              Inr [(''noteheadBlack'', PDict [(''stemUpSE'', PTuple [PNum (nearest_double (4 / 25)), PNum (nearest_double (2 / 5))])])]
          \<and> (\<exists>d. asdict tbl sf = Inr d
                \<and> dict_get d ''glyphsWithAnchors'' =
                    Some (PDict [(''noteheadBlack'',
                                  PDict [(''stemUpSE'', PTuple [PNum (nearest_double (4 / 25)), PNum (nearest_double (2 / 5))])])])
                \<and> ''glyphsWithAlternates'' \<notin> set (dict_keys d)
                \<and> ''ligatures'' \<notin> set (dict_keys d)))"
proof (intro conjI impI)
  show "char_anchors g = dict_update (map anchor_item (recognized_anchors g)) []"
    by (rule char_anchors_update)
  show "set (dict_keys (char_anchors g))
       = {n \<in> fst ` set (anchorPoints g). n \<in> set valid_anchor_names}"
    using char_anchors_keys [of g] by (simp add: dict_keys_def recognized_names)
  show "dict_get (char_anchors g) n
       = map_option (\<lambda>a. snd (anchor_item a)) (find (\<lambda>a. fst a = n) (rev (recognized_anchors g)))"
    by (simp add: dict_get_def char_anchors_lookup)
  show "length valid_anchor_names = 21" "distinct valid_anchor_names"
    by (simp_all add: valid_anchor_names_def)
next
  assume "distinct (map fst (recognized_anchors g))"
  then show "char_anchors g = map anchor_item (recognized_anchors g)"
    by (rule char_anchors_distinct)
next
  assume run: "anchors tbl sf = Inr m"
  note t = anchors_loop_table [OF run [unfolded anchors_def], unfolded canonical_def]
  from t(1) show "set (dict_keys m) =
          {k. \<exists>g\<in>set (glyphs (font sf)). in_smufl_range g \<and> recognized_anchors g \<noteq> []
                \<and> canonical_glyphname tbl (unicode g) True = Inr k}" .
  from t(2) show "\<forall>g\<in>set (glyphs (font sf)). in_smufl_range g \<longrightarrow> recognized_anchors g \<noteq> [] \<longrightarrow>
             (\<forall>g'\<in>set (glyphs (font sf)). in_smufl_range g' \<longrightarrow> recognized_anchors g' \<noteq> [] \<longrightarrow>
                 canonical_glyphname tbl (unicode g') True = canonical_glyphname tbl (unicode g) True
                 \<longrightarrow> g' = g) \<longrightarrow>
             (\<exists>k. canonical_glyphname tbl (unicode g) True = Inr k
                   \<and> dict_get m k = Some (PDict (char_anchors g)))" .
next
  assume named: "\<forall>g\<in>set (glyphs (font sf)). in_smufl_range g \<longrightarrow> recognized_anchors g \<noteq> []
          \<longrightarrow> tbl (format_codepoint (unicode g)) \<noteq> None"
  show "\<exists>m. anchors tbl sf = Inr m"
    unfolding anchors_def
  proof (rule anchors_loop_total_on)
    fix g assume "g \<in> set (smufl_iter (font sf))" "char_anchors g \<noteq> []"
    with named show "\<exists>k. canonical tbl g = Inr k"
      by (intro canonical_total) (simp add: smufl_iter_set char_anchors_Nil)
  qed
next
  assume h: "tbl ''U+E000'' = Some ''noteheadBlack''" "glyphs (font sf) = [g0]" "unicode g0 = 57344"
    "anchorPoints g0 = [(''stemUpSE'', ty, 40, 100)]" "getPosSub g0 = []"
  from scenario_general [where tbl = tbl, OF h]
  show "anchors tbl sf =
              Inr [(''noteheadBlack'', PDict [(''stemUpSE'', PTuple [PNum (nearest_double (4 / 25)), PNum (nearest_double (2 / 5))])])]"
    and "\<exists>d. asdict tbl sf = Inr d
                \<and> dict_get d ''glyphsWithAnchors'' =
                    Some (PDict [(''noteheadBlack'',
                                  PDict [(''stemUpSE'', PTuple [PNum (nearest_double (4 / 25)), PNum (nearest_double (2 / 5))])])])
                \<and> ''glyphsWithAlternates'' \<notin> set (dict_keys d)
                \<and> ''ligatures'' \<notin> set (dict_keys d)"
    by blast+
qed

theorem anchors_extraction_witness:
  "distinct (map fst (recognized_anchors notehead))
   \<and> char_anchors notehead = map anchor_item (recognized_anchors notehead)
   \<and> anchors example_table (smufl_font_of [notehead]) = Inr scenario_anchors_table
   \<and> (\<exists>k. canonical_glyphname example_table (unicode notehead) True = Inr k
         \<and> dict_get scenario_anchors_table k = Some (PDict (char_anchors notehead)))
   \<and> (\<exists>m. anchors example_table (smufl_font_of [notehead]) = Inr m)
   \<and> (\<exists>d. asdict example_table (smufl_font_of [notehead]) = Inr d
         \<and> dict_get d ''glyphsWithAnchors'' =
             Some (PDict [(''noteheadBlack'',
                           PDict [(''stemUpSE'', PTuple [PNum (nearest_double (4 / 25)), PNum (nearest_double (2 / 5))])])])
         \<and> ''glyphsWithAlternates'' \<notin> set (dict_keys d)
         \<and> ''ligatures'' \<notin> set (dict_keys d))"
proof -
  note t = anchors_extraction [where g = notehead and tbl = example_table
      and sf = "smufl_font_of [notehead]" and m = scenario_anchors_table and g0 = notehead
      and ty = "''base''"]
  have dist: "distinct (map fst (recognized_anchors notehead))"
    by (simp add: recognized_anchors_def notehead_def valid_anchor_names_def)
  have g: "notehead \<in> set (glyphs (font (smufl_font_of [notehead])))" "in_smufl_range notehead"
    "recognized_anchors notehead \<noteq> []"
    by (simp_all add: example_defs in_smufl_range_def recognized_anchors_def valid_anchor_names_def)
  have u: "g' = notehead" if "g' \<in> set (glyphs (font (smufl_font_of [notehead])))" for g'
    using that by (simp add: smufl_font_of_def font_of_def)
  have named: "\<forall>g\<in>set (glyphs (font (smufl_font_of [notehead]))). in_smufl_range g
      \<longrightarrow> recognized_anchors g \<noteq> [] \<longrightarrow> example_table (format_codepoint (unicode g)) \<noteq> None"
    by (simp add: example_defs format_codepoint_E000)
  have h: "example_table ''U+E000'' = Some ''noteheadBlack''"
    "glyphs (font (smufl_font_of [notehead])) = [notehead]" "unicode notehead = 57344"
    "anchorPoints notehead = [(''stemUpSE'', ''base'', 40, 100)]" "getPosSub notehead = []"
    by (simp_all add: example_defs)
  note 1 = t [THEN conjunct2, THEN conjunct2, THEN conjunct2, THEN conjunct1, THEN mp, OF dist]
  note r = t [THEN conjunct2, THEN conjunct2, THEN conjunct2, THEN conjunct2, THEN conjunct2,
      THEN conjunct2]
  note 2 = r [THEN conjunct1, THEN mp, OF scenario_anchors, THEN conjunct2, rule_format,
      OF g(1) g(2) g(3) u]
  note 3 = r [THEN conjunct2, THEN conjunct1, THEN mp, OF named]
  note 4 = r [THEN conjunct2, THEN conjunct2, rule_format, OF h, THEN conjunct2]
  show ?thesis
    using dist 1 scenario_anchors 2 3 4 by (intro conjI) assumption+
qed

text \<open>
  The claim as stated fails on a glyph with two anchor points named \<open>stemUpSE\<close>: both
  names are recognized, but the dictionary keeps one item, the pair of the second
  point; the pair \<open>(0.16, 0.4)\<close> of the first is not kept.  And for a glyph of the
  range with a recognized anchor at a code point the table does not name, \<open>anchors\<close>
  raises \<open>NameError\<close> instead of including the glyph.
\<close>

theorem anchors_extraction_counterexample:
  "in_smufl_range notehead_two_anchors
   \<and> recognized_anchors notehead_two_anchors
       = [(''stemUpSE'', ''base'', 40, 100), (''stemUpSE'', ''base'', 80, 200)]
   \<and> em_to_spaces 40 = nearest_double (4 / 25) \<and> em_to_spaces 100 = nearest_double (2 / 5)
   \<and> nearest_double (4 / 25) \<noteq> nearest_double (8 / 25)
   \<and> char_anchors notehead_two_anchors = [(''stemUpSE'', PTuple [PNum (nearest_double (8 / 25)), PNum (nearest_double (4 / 5))])]
   \<and> anchors example_table (smufl_font_of [notehead_two_anchors])
       = Inr [(''noteheadBlack'', PDict [(''stemUpSE'', PTuple [PNum (nearest_double (8 / 25)), PNum (nearest_double (4 / 5))])])]
   \<and> in_smufl_range custom_glyph
   \<and> recognized_anchors custom_glyph = [(''stemUpSE'', ''base'', 40, 100)]
   \<and> anchors example_table (smufl_font_of [custom_glyph]) = Inl NameError"
  by (simp add: example_defs table_defs in_smufl_range_def recognized_anchors_def)

section \<open>Alternates\<close>

lemma alternate_Inr_iff:
  "alternate res f name = Inr r \<longleftrightarrow>
     (\<exists>sc nm. font_getitem f name = Inr sc \<and> res sc = Inr nm
        \<and> r = PDict [(''codepoint'', PStr (format_codepoint (unicode sc))), (''name'', PStr nm)])"
  by (auto simp: alternate_def Let_def split: sum.splits)

lemma map_Inr_exists:
  "(\<And>x. x \<in> set xs \<Longrightarrow> \<exists>r. h x = Inr r) \<Longrightarrow> \<exists>l. map h xs = map Inr l"
proof (induction xs)
  case Nil
  show ?case by simp
next
  case (Cons x xs)
  from Cons.prems obtain r where "h x = Inr r" by auto
  moreover from Cons.prems Cons.IH obtain l where "map h xs = map Inr l" by auto
  ultimately have "map h (x # xs) = map Inr (r # l)" by simp
  then show ?case by blast
qed

lemma alternates_loop_total_on:
  assumes "\<And>g n. g \<in> set gs \<Longrightarrow> n \<in> set (substitute_names g) \<Longrightarrow> \<exists>r. alternate res f n = Inr r"
    and "\<And>g. g \<in> set gs \<Longrightarrow> substitute_names g \<noteq> [] \<Longrightarrow> \<exists>k. res g = Inr k"
  shows "\<exists>m. alternates_loop res f gs all = Inr m"
  using assms
proof (induction gs arbitrary: all)
  case Nil
  show ?case by simp
next
  case (Cons g gs)
  have rest: "\<exists>m. alternates_loop res f gs all' = Inr m" for all'
    using Cons.prems by (intro Cons.IH) auto
  from Cons.prems(1) [of g] have "\<exists>l. map (alternate res f) (substitute_names g) = map Inr l"
    by (intro map_Inr_exists) simp
  then obtain l where l: "char_alternates res f g = Inr l"
    by (auto simp: char_alternates_iff)
  show ?case
  proof (cases "l = []")
    case True
    with l rest show ?thesis by simp
  next
    case False
    with l have "substitute_names g \<noteq> []" by (auto simp: char_alternates_iff)
    with Cons.prems(2) [of g] obtain k where "res g = Inr k" by auto
    with l False rest show ?thesis by simp
  qed
qed

lemma alternates_loop_table:
  assumes run: "alternates_loop res f (smufl_iter f) [] = Inr m"
  shows "set (dict_keys m) =
      {k. \<exists>g\<in>set (glyphs f). in_smufl_range g \<and> substitute_names g \<noteq> [] \<and> res g = Inr k}"
    and "\<forall>g\<in>set (glyphs f). in_smufl_range g \<longrightarrow> substitute_names g \<noteq> [] \<longrightarrow>
          (\<forall>g'\<in>set (glyphs f). in_smufl_range g' \<longrightarrow> substitute_names g' \<noteq> [] \<longrightarrow>
              res g' = res g \<longrightarrow> g' = g) \<longrightarrow>
          (\<exists>k l. res g = Inr k \<and> map (alternate res f) (substitute_names g) = map Inr l
                \<and> dict_get m k = Some (PDict [(''alternates'', PList l)]))"
proof -
  from alternates_loop_keys [OF run]
  show "set (dict_keys m) =
      {k. \<exists>g\<in>set (glyphs f). in_smufl_range g \<and> substitute_names g \<noteq> [] \<and> res g = Inr k}"
    by (auto simp: dict_keys_def smufl_iter_set)
  show "\<forall>g\<in>set (glyphs f). in_smufl_range g \<longrightarrow> substitute_names g \<noteq> [] \<longrightarrow>
          (\<forall>g'\<in>set (glyphs f). in_smufl_range g' \<longrightarrow> substitute_names g' \<noteq> [] \<longrightarrow>
              res g' = res g \<longrightarrow> g' = g) \<longrightarrow>
          (\<exists>k l. res g = Inr k \<and> map (alternate res f) (substitute_names g) = map Inr l
                \<and> dict_get m k = Some (PDict [(''alternates'', PList l)]))"
  proof (intro ballI impI)
    fix g
    assume g: "g \<in> set (glyphs f)" "in_smufl_range g" "substitute_names g \<noteq> []"
      and uniq: "\<forall>g'\<in>set (glyphs f). in_smufl_range g' \<longrightarrow> substitute_names g' \<noteq> [] \<longrightarrow>
              res g' = res g \<longrightarrow> g' = g"
    from g have "g \<in> set (smufl_iter f)" "substitute_names g \<noteq> []"
      by (simp_all add: smufl_iter_set)
    moreover have "g' = g"
      if "g' \<in> set (smufl_iter f)" "substitute_names g' \<noteq> []" "res g' = res g" for g'
      using that uniq by (simp add: smufl_iter_set)
    ultimately show "\<exists>k l. res g = Inr k \<and> map (alternate res f) (substitute_names g) = map Inr l
                \<and> dict_get m k = Some (PDict [(''alternates'', PList l)])"
      unfolding dict_get_def by (rule alternates_loop_entry [OF run])
  qed
qed

text \<open>
  Claim C6, as amended.  Whenever the computation of \<open>glyphsWithAlternates\<close> returns a
  table, its keys are exactly the resolved names of the glyphs of the SMuFL range
  whose \<open>AltSubs\<close> rules list at least one substitute (so a glyph without such a rule
  has no entry of its own), and such a glyph whose resolved name no other such glyph
  shares is mapped to the record \<open>{alternates: L}\<close>, where \<open>L\<close> lists, in the order of
  the rules and of the names in each rule, the record \<open>{codepoint, name}\<close> of each
  substitute: the formatted code point and the resolved name of the glyph of that
  name.  \<open>glyphsWithAlternates\<close> of \<open>ff_smufl_metadata.py\<close> returns a table when every
  substitute named by a glyph of the range is a glyph of the font.
\<close>

theorem alternates_table:
  "(alternates tbl sf = Inr m \<longrightarrow>
      set (dict_keys m) =
        {k. \<exists>g\<in>set (glyphs (font sf)). in_smufl_range g \<and> substitute_names g \<noteq> []
              \<and> canonical_glyphname tbl (unicode g) True = Inr k}
      \<and> (\<forall>g\<in>set (glyphs (font sf)). in_smufl_range g \<longrightarrow> substitute_names g \<noteq> [] \<longrightarrow>
           (\<forall>g'\<in>set (glyphs (font sf)). in_smufl_range g' \<longrightarrow> substitute_names g' \<noteq> [] \<longrightarrow>
               canonical_glyphname tbl (unicode g') True = canonical_glyphname tbl (unicode g) True
               \<longrightarrow> g' = g) \<longrightarrow>
           (\<exists>k l. canonical_glyphname tbl (unicode g) True = Inr k
                 \<and> map (alternate (canonical tbl) (font sf)) (substitute_names g) = map Inr l
                 \<and> dict_get m k = Some (PDict [(''alternates'', PList l)]))))
   \<and> (glyphsWithAlternates tbl f = Inr m' \<longrightarrow>
      set (dict_keys m') =
        {k. \<exists>g\<in>set (glyphs f). in_smufl_range g \<and> substitute_names g \<noteq> []
              \<and> smufl_canonical_name tbl g True = Inr k}
      \<and> (\<forall>g\<in>set (glyphs f). in_smufl_range g \<longrightarrow> substitute_names g \<noteq> [] \<longrightarrow>
           (\<forall>g'\<in>set (glyphs f). in_smufl_range g' \<longrightarrow> substitute_names g' \<noteq> [] \<longrightarrow>
               smufl_canonical_name tbl g' True = smufl_canonical_name tbl g True \<longrightarrow> g' = g) \<longrightarrow>
           (\<exists>k l. smufl_canonical_name tbl g True = Inr k
                 \<and> map (alternate (smufl_name tbl) f) (substitute_names g) = map Inr l
                 \<and> dict_get m' k = Some (PDict [(''alternates'', PList l)]))))
   \<and> (alternate res f name = Inr r \<longleftrightarrow>
        (\<exists>sc nm. font_getitem f name = Inr sc \<and> res sc = Inr nm
           \<and> r = PDict [(''codepoint'', PStr (format_codepoint (unicode sc))), (''name'', PStr nm)]))
   \<and> substitute_names g
       = concat (map (\<lambda>table. snd (snd table))
                   (filter (\<lambda>table. fst (snd table) = ''AltSubs'') (getPosSub g)))
   \<and> ((\<forall>g\<in>set (glyphs f). in_smufl_range g \<longrightarrow>
          (\<forall>n\<in>set (substitute_names g). \<exists>sc. font_getitem f n = Inr sc))
        \<longrightarrow> (\<exists>m. glyphsWithAlternates tbl f = Inr m))"
proof (intro conjI impI)
  assume run: "alternates tbl sf = Inr m"
  note t = alternates_loop_table [OF run [unfolded alternates_def]]
  from t(1) show "set (dict_keys m) =
        {k. \<exists>g\<in>set (glyphs (font sf)). in_smufl_range g \<and> substitute_names g \<noteq> []
              \<and> canonical_glyphname tbl (unicode g) True = Inr k}"
    unfolding canonical_def .
  from t(2) show "\<forall>g\<in>set (glyphs (font sf)). in_smufl_range g \<longrightarrow> substitute_names g \<noteq> [] \<longrightarrow>
           (\<forall>g'\<in>set (glyphs (font sf)). in_smufl_range g' \<longrightarrow> substitute_names g' \<noteq> [] \<longrightarrow>
               canonical_glyphname tbl (unicode g') True = canonical_glyphname tbl (unicode g) True
               \<longrightarrow> g' = g) \<longrightarrow>
           (\<exists>k l. canonical_glyphname tbl (unicode g) True = Inr k
                 \<and> map (alternate (canonical tbl) (font sf)) (substitute_names g) = map Inr l
                 \<and> dict_get m k = Some (PDict [(''alternates'', PList l)]))"
    unfolding canonical_def .
next
  assume run: "glyphsWithAlternates tbl f = Inr m'"
  note t = alternates_loop_table [OF run [unfolded glyphsWithAlternates_def]]
  from t(1) show "set (dict_keys m') =
        {k. \<exists>g\<in>set (glyphs f). in_smufl_range g \<and> substitute_names g \<noteq> []
              \<and> smufl_canonical_name tbl g True = Inr k}"
    unfolding smufl_name_def .
  from t(2) show "\<forall>g\<in>set (glyphs f). in_smufl_range g \<longrightarrow> substitute_names g \<noteq> [] \<longrightarrow>
           (\<forall>g'\<in>set (glyphs f). in_smufl_range g' \<longrightarrow> substitute_names g' \<noteq> [] \<longrightarrow>
               smufl_canonical_name tbl g' True = smufl_canonical_name tbl g True \<longrightarrow> g' = g) \<longrightarrow>
           (\<exists>k l. smufl_canonical_name tbl g True = Inr k
                 \<and> map (alternate (smufl_name tbl) f) (substitute_names g) = map Inr l
                 \<and> dict_get m' k = Some (PDict [(''alternates'', PList l)]))"
    unfolding smufl_name_def .
next
  show "alternate res f name = Inr r \<longleftrightarrow>
        (\<exists>sc nm. font_getitem f name = Inr sc \<and> res sc = Inr nm
           \<and> r = PDict [(''codepoint'', PStr (format_codepoint (unicode sc))), (''name'', PStr nm)])"
    by (rule alternate_Inr_iff)
  show "substitute_names g
       = concat (map (\<lambda>table. snd (snd table))
                   (filter (\<lambda>table. fst (snd table) = ''AltSubs'') (getPosSub g)))"
    by (simp add: substitute_names_def is_AltSubs_def [abs_def])
next
  assume ex: "\<forall>g\<in>set (glyphs f). in_smufl_range g \<longrightarrow>
          (\<forall>n\<in>set (substitute_names g). \<exists>sc. font_getitem f n = Inr sc)"
  show "\<exists>m. glyphsWithAlternates tbl f = Inr m"
    unfolding glyphsWithAlternates_def
  proof (rule alternates_loop_total_on)
    fix g n assume "g \<in> set (smufl_iter f)" "n \<in> set (substitute_names g)"
    with ex obtain sc where "font_getitem f n = Inr sc"
      by (auto simp: smufl_iter_set)
    then show "\<exists>r. alternate (smufl_name tbl) f n = Inr r"
      by (simp add: alternate_Inr_iff smufl_name_Inr)
  next
    fix g show "\<exists>k. smufl_name tbl g = Inr k"
      by (simp add: smufl_name_Inr)
  qed
qed

lemma example_alternates:
  "alternates extended_table (smufl_font_of [notehead_with_alternate, substitute_glyph]) =
     Inr [(''noteheadBlack'',
           PDict [(''alternates'',
                   PList [PDict [(''codepoint'', PStr ''U+F400''),
                                 (''name'', PStr ''noteheadBlackAlt'')]])])]"
  by (simp add: example_defs table_defs)

lemma example_glyphsWithAlternates:
  "glyphsWithAlternates extended_table (font_of [notehead_with_alternate, substitute_glyph]) =
     Inr [(''noteheadBlack'',
           PDict [(''alternates'',
                   PList [PDict [(''codepoint'', PStr ''U+F400''),
                                 (''name'', PStr ''noteheadBlackAlt'')]])])]"
  by (simp add: example_defs table_defs)

lemma example_substitute_names:
  "substitute_names notehead_with_alternate = [''uniF400'']" "substitute_names substitute_glyph = []"
  by (simp_all add: substitute_names_def example_defs is_AltSubs_def)

theorem alternates_table_witness:
  "alternates extended_table (smufl_font_of [notehead_with_alternate, substitute_glyph]) =
     Inr [(''noteheadBlack'',
           PDict [(''alternates'',
                   PList [PDict [(''codepoint'', PStr ''U+F400''),
                                 (''name'', PStr ''noteheadBlackAlt'')]])])]
   \<and> (\<exists>k l. canonical_glyphname extended_table (unicode notehead_with_alternate) True = Inr k
         \<and> map (alternate (canonical extended_table)
                  (font (smufl_font_of [notehead_with_alternate, substitute_glyph])))
               (substitute_names notehead_with_alternate) = map Inr l
         \<and> dict_get [(''noteheadBlack'',
                       PDict [(''alternates'',
                               PList [PDict [(''codepoint'', PStr ''U+F400''),
                                             (''name'', PStr ''noteheadBlackAlt'')]])])] k
             = Some (PDict [(''alternates'', PList l)]))
   \<and> (\<exists>k l. smufl_canonical_name extended_table notehead_with_alternate True = Inr k
         \<and> map (alternate (smufl_name extended_table)
                  (font_of [notehead_with_alternate, substitute_glyph]))
               (substitute_names notehead_with_alternate) = map Inr l
         \<and> dict_get [(''noteheadBlack'',
                       PDict [(''alternates'',
                               PList [PDict [(''codepoint'', PStr ''U+F400''),
                                             (''name'', PStr ''noteheadBlackAlt'')]])])] k
             = Some (PDict [(''alternates'', PList l)]))
   \<and> (\<exists>m. glyphsWithAlternates extended_table
              (font_of [notehead_with_alternate, substitute_glyph]) = Inr m)"
proof -
  note t = alternates_table [where tbl = extended_table
      and sf = "smufl_font_of [notehead_with_alternate, substitute_glyph]"
      and f = "font_of [notehead_with_alternate, substitute_glyph]"
      and m = "[(''noteheadBlack'',
           PDict [(''alternates'',
                   PList [PDict [(''codepoint'', PStr ''U+F400''),
                                 (''name'', PStr ''noteheadBlackAlt'')]])])]"
      and m' = "[(''noteheadBlack'',
           PDict [(''alternates'',
                   PList [PDict [(''codepoint'', PStr ''U+F400''),
                                 (''name'', PStr ''noteheadBlackAlt'')]])])]"]
  have g: "notehead_with_alternate
        \<in> set (glyphs (font (smufl_font_of [notehead_with_alternate, substitute_glyph])))"
    "in_smufl_range notehead_with_alternate" "substitute_names notehead_with_alternate \<noteq> []"
    by (simp_all add: example_substitute_names) (simp_all add: example_defs in_smufl_range_def)
  have g': "notehead_with_alternate \<in> set (glyphs (font_of [notehead_with_alternate, substitute_glyph]))"
    by (simp add: font_of_def)
  have u: "h = notehead_with_alternate"
    if "h \<in> set (glyphs (font (smufl_font_of [notehead_with_alternate, substitute_glyph])))"
      "in_smufl_range h" "substitute_names h \<noteq> []"
      "canonical_glyphname extended_table (unicode h) True
        = canonical_glyphname extended_table (unicode notehead_with_alternate) True" for h
    using that(1,3) by (auto simp: smufl_font_of_def font_of_def example_substitute_names)
  have u': "h = notehead_with_alternate"
    if "h \<in> set (glyphs (font_of [notehead_with_alternate, substitute_glyph]))"
      "in_smufl_range h" "substitute_names h \<noteq> []"
      "smufl_canonical_name extended_table h True
        = smufl_canonical_name extended_table notehead_with_alternate True" for h
    using that(1,3) by (auto simp: font_of_def example_substitute_names)
  have ex: "\<forall>g\<in>set (glyphs (font_of [notehead_with_alternate, substitute_glyph])).
      in_smufl_range g \<longrightarrow> (\<forall>n\<in>set (substitute_names g).
        \<exists>sc. font_getitem (font_of [notehead_with_alternate, substitute_glyph]) n = Inr sc)"
    by (simp add: font_of_def example_substitute_names)
      (simp add: font_getitem_def example_defs)
  note 1 = t [THEN conjunct1, THEN mp, OF example_alternates, THEN conjunct2, rule_format,
      OF g(1) g(2) g(3) u]
  note 2 = t [THEN conjunct2, THEN conjunct1, THEN mp, OF example_glyphsWithAlternates,
      THEN conjunct2, rule_format, OF g' g(2) g(3) u']
  note 3 = t [THEN conjunct2, THEN conjunct2, THEN conjunct2, THEN conjunct2, THEN mp, OF ex]
  show ?thesis
    using example_alternates 1 2 3 by (intro conjI) assumption+
qed

text \<open>
  The claim as stated fails: the entry of a glyph is the record \<open>{alternates: L}\<close>,
  not the list \<open>L\<close> itself; a glyph of the range whose only \<open>AltSubs\<close> rule lists no
  substitute has no entry; and \<open>alternates\<close> of \<open>ffsmufl.py\<close> raises \<open>NameError\<close> when
  the table does not name the code point of the substitute.
\<close>

theorem alternates_table_counterexample:
  "in_smufl_range notehead_with_alternate
   \<and> getPosSub notehead_with_alternate = [(''ss01-1'', ''AltSubs'', [''uniF400''])]
   \<and> glyphsWithAlternates example_table (font_of [notehead_with_alternate, substitute_glyph]) =
       Inr [(''noteheadBlack'',
             PDict [(''alternates'',
                     PList [PDict [(''codepoint'', PStr ''U+F400''), (''name'', PStr ''uniF400'')]])])]
   \<and> PDict [(''alternates'',
             PList [PDict [(''codepoint'', PStr ''U+F400''), (''name'', PStr ''uniF400'')]])]
       \<noteq> PList [PDict [(''codepoint'', PStr ''U+F400''), (''name'', PStr ''uniF400'')]]
   \<and> in_smufl_range notehead_empty_rule
   \<and> getPosSub notehead_empty_rule = [(''ss01-1'', ''AltSubs'', [])]
   \<and> glyphsWithAlternates example_table (font_of [notehead_empty_rule]) = Inr []
   \<and> alternates example_table (smufl_font_of [notehead_empty_rule]) = Inr []
   \<and> alternates example_table (smufl_font_of [notehead_with_alternate, substitute_glyph])
       = Inl NameError"
  by (simp add: example_defs table_defs in_smufl_range_def)

theorem smufl_range_keys_witness:
  "asdict example_table (smufl_font_of [notehead]) = Inr scenario_document
   \<and> ''glyphsWithAnchors'' \<in> set glyph_tables
   \<and> dict_get scenario_document ''glyphsWithAnchors'' = Some (PDict scenario_anchors_table)
   \<and> ''noteheadBlack'' \<in> set (dict_keys scenario_anchors_table)
   \<and> (\<exists>g\<in>set (glyphs (font (smufl_font_of [notehead]))). 57344 \<le> unicode g \<and> unicode g \<le> 62463
         \<and> canonical_glyphname example_table (unicode g) True = Inr ''noteheadBlack'')
   \<and> SmuflMetadata_asdict example_table (font_of [notehead]) PNone = Inr scenario_document
   \<and> (\<exists>g\<in>set (glyphs (font_of [notehead])). 57344 \<le> unicode g \<and> unicode g \<le> 62463
         \<and> smufl_canonical_name example_table g True = Inr ''noteheadBlack'')
   \<and> (\<exists>d0. asdict example_table (smufl_font_of [fi_ligature]) = Inr d0
         \<and> dict_get d0 ''ligatures'' = None)
   \<and> alternates example_table (smufl_font_of [notehead, fi_ligature])
       = alternates example_table (smufl_font_of [notehead])
   \<and> glyphsWithAlternates example_table (font_of [notehead, fi_ligature])
       = glyphsWithAlternates example_table (font_of [notehead])"
proof -
  note t = smufl_range_keys [where tbl = example_table and sf = "smufl_font_of [notehead]"
      and d = scenario_document and t = "''glyphsWithAnchors''" and m = scenario_anchors_table
      and k = "''noteheadBlack''" and f = "font_of [notehead]" and ed = PNone
      and sf' = "smufl_font_of [notehead, fi_ligature]" and f' = "font_of [notehead, fi_ligature]"]
  note u = smufl_range_keys [where tbl = example_table and sf = "smufl_font_of [fi_ligature]"]
  have h: "''glyphsWithAnchors'' \<in> set glyph_tables"
    "dict_get scenario_document ''glyphsWithAnchors'' = Some (PDict scenario_anchors_table)"
    "''noteheadBlack'' \<in> set (dict_keys scenario_anchors_table)"
    by (simp_all add: glyph_tables_def dict_get_def dict_keys_def scenario_document_def
        scenario_anchors_table_def)
  have out: "\<forall>g\<in>set (glyphs (font (smufl_font_of [fi_ligature]))).
      \<not> (57344 \<le> unicode g \<and> unicode g \<le> 62463)"
    by (simp add: example_defs)
  have same: "filter in_smufl_range (glyphs (font (smufl_font_of [notehead, fi_ligature])))
      = filter in_smufl_range (glyphs (font (smufl_font_of [notehead])))"
    "filter in_smufl_range (glyphs (font_of [notehead, fi_ligature]))
      = filter in_smufl_range (glyphs (font_of [notehead]))"
    by (simp_all add: example_defs in_smufl_range_def)
  have look: "\<forall>g\<in>set (glyphs (font (smufl_font_of [notehead]))). in_smufl_range g \<longrightarrow>
      (\<forall>n\<in>set (substitute_names g).
         font_getitem (font (smufl_font_of [notehead, fi_ligature])) n
           = font_getitem (font (smufl_font_of [notehead])) n)"
    "\<forall>g\<in>set (glyphs (font_of [notehead])). in_smufl_range g \<longrightarrow>
      (\<forall>n\<in>set (substitute_names g).
         font_getitem (font_of [notehead, fi_ligature]) n = font_getitem (font_of [notehead]) n)"
    by (simp_all add: example_defs substitute_names_def)
  note 1 = t [THEN conjunct1, rule_format, OF scenario_asdict h]
  note 2 = t [THEN conjunct2, THEN conjunct1, rule_format, OF scenario_SmuflMetadata_asdict h]
  from u [THEN conjunct2, THEN conjunct2, THEN conjunct1, THEN mp, OF out]
  obtain d0 where "asdict example_table (smufl_font_of [fi_ligature]) = Inr d0"
    "\<forall>t\<in>set glyph_tables. dict_get d0 t = None"
    by blast
  then have 3: "\<exists>d0. asdict example_table (smufl_font_of [fi_ligature]) = Inr d0
         \<and> dict_get d0 ''ligatures'' = None"
    by (auto simp: glyph_tables_def)
  note r = t [THEN conjunct2, THEN conjunct2, THEN conjunct2, THEN conjunct2, THEN conjunct2,
      THEN conjunct2, THEN conjunct2, THEN conjunct2, THEN conjunct2, THEN conjunct2]
  note 4 = r [THEN conjunct1, THEN mp, OF same(1), THEN mp, OF look(1)]
  note 5 = r [THEN conjunct2, THEN mp, OF same(2), THEN mp, OF look(2)]
  show ?thesis
    using scenario_asdict h 1 scenario_SmuflMetadata_asdict 2 3 4 5
    by (intro conjI) assumption+
qed

text \<open>
  The claim as stated fails for the table of alternates: the substitute named by a
  rule of a glyph of the range may lie outside the range (here at code point 62464),
  and its code point and name are put into the table; without that glyph the call
  does not return a table.
\<close>

theorem smufl_range_keys_counterexample:
  "\<not> in_smufl_range substitute_glyph \<and> unicode substitute_glyph = 62464
   \<and> glyphname substitute_glyph = ''uniF400''
   \<and> glyphsWithAlternates example_table (font_of [notehead_with_alternate, substitute_glyph]) =
       Inr [(''noteheadBlack'',
             PDict [(''alternates'',
                     PList [PDict [(''codepoint'', PStr ''U+F400''), (''name'', PStr ''uniF400'')]])])]
   \<and> glyphsWithAlternates example_table (font_of [notehead_with_alternate]) = Inl NoSuchGlyph
   \<and> alternates extended_table (smufl_font_of [notehead_with_alternate, substitute_glyph]) =
       Inr [(''noteheadBlack'',
             PDict [(''alternates'',
                     PList [PDict [(''codepoint'', PStr ''U+F400''),
                                   (''name'', PStr ''noteheadBlackAlt'')]])])]
   \<and> alternates extended_table (smufl_font_of [notehead_with_alternate]) = Inl NoSuchGlyph"
  by (simp add: example_defs table_defs in_smufl_range_def)

section \<open>Ligatures\<close>

lemma ligatures_loop_total_on:
  "(\<And>g. g \<in> set gs \<Longrightarrow> \<exists>k. res g = Inr k) \<Longrightarrow> \<exists>m. ligatures_loop res gs all = Inr m"
proof (induction gs arbitrary: all)
  case Nil
  show ?case by simp
next
  case (Cons g gs)
  from Cons.prems obtain k where "res g = Inr k" by auto
  moreover have "\<exists>m. ligatures_loop res gs all' = Inr m" for all'
    by (rule Cons.IH) (use Cons.prems in auto)
  ultimately show ?case by simp
qed

lemma ligatures_loop_table:
  assumes run: "ligatures_loop res (smufl_iter f) [] = Inr m"
  shows "set (dict_keys m) =
      {k. \<exists>g\<in>set (glyphs f). in_smufl_range g \<and> ligature_rules g \<noteq> [] \<and> res g = Inr k}"
    and "\<forall>g\<in>set (glyphs f). in_smufl_range g \<longrightarrow> ligature_rules g \<noteq> [] \<longrightarrow>
          (\<forall>g'\<in>set (glyphs f). in_smufl_range g' \<longrightarrow> ligature_rules g' \<noteq> [] \<longrightarrow>
              res g' = res g \<longrightarrow> g' = g) \<longrightarrow>
          (\<exists>k. res g = Inr k \<and> dict_get m k =
             Some (PDict [(''codepoint'', PStr (format_codepoint (unicode g))),
                          (''componentGlyphs'',
                           PList (map PStr (snd (snd (last (ligature_rules g))))))]))"
proof -
  from ligatures_loop_keys [OF run]
  show "set (dict_keys m) =
      {k. \<exists>g\<in>set (glyphs f). in_smufl_range g \<and> ligature_rules g \<noteq> [] \<and> res g = Inr k}"
    by (auto simp: dict_keys_def smufl_iter_set)
  show "\<forall>g\<in>set (glyphs f). in_smufl_range g \<longrightarrow> ligature_rules g \<noteq> [] \<longrightarrow>
          (\<forall>g'\<in>set (glyphs f). in_smufl_range g' \<longrightarrow> ligature_rules g' \<noteq> [] \<longrightarrow>
              res g' = res g \<longrightarrow> g' = g) \<longrightarrow>
          (\<exists>k. res g = Inr k \<and> dict_get m k =
             Some (PDict [(''codepoint'', PStr (format_codepoint (unicode g))),
                          (''componentGlyphs'',
                           PList (map PStr (snd (snd (last (ligature_rules g))))))]))"
  proof (intro ballI impI)
    fix g
    assume g: "g \<in> set (glyphs f)" "in_smufl_range g" "ligature_rules g \<noteq> []"
      and uniq: "\<forall>g'\<in>set (glyphs f). in_smufl_range g' \<longrightarrow> ligature_rules g' \<noteq> [] \<longrightarrow>
              res g' = res g \<longrightarrow> g' = g"
    from g have "g \<in> set (smufl_iter f)" "ligature_rules g \<noteq> []"
      by (simp_all add: smufl_iter_set)
    moreover have "g' = g"
      if "g' \<in> set (smufl_iter f)" "ligature_rules g' \<noteq> []" "res g' = res g" for g'
      using that uniq by (simp add: smufl_iter_set)
    ultimately obtain k where "res g = Inr k"
      "map_of m k = Some (ligature g (last (ligature_rules g)))"
      using ligatures_loop_entry [OF run] by blast
    then show "\<exists>k. res g = Inr k \<and> dict_get m k =
             Some (PDict [(''codepoint'', PStr (format_codepoint (unicode g))),
                          (''componentGlyphs'',
                           PList (map PStr (snd (snd (last (ligature_rules g))))))])"
      by (simp add: dict_get_def ligature_def)
  qed
qed

lemma last_ligature_is_Ligature:
  "ligature_rules g \<noteq> [] \<Longrightarrow> is_Ligature (last (ligature_rules g))"
proof -
  assume "ligature_rules g \<noteq> []"
  then have "last (ligature_rules g) \<in> set (ligature_rules g)" by (rule last_in_set)
  then show ?thesis by (simp add: ligature_rules_def)
qed

lemma ligature_rules_last_only:
  "ligature_rules (last_ligature_only g)
     = (if ligature_rules g = [] then [] else [last (ligature_rules g)])"
  using last_ligature_is_Ligature [of g]
  by (simp add: last_ligature_only_def ligature_rules_def)

lemma unicode_last_only: "unicode (last_ligature_only g) = unicode g"
  by (simp add: last_ligature_only_def)

lemma ligature_last_only: "ligature (last_ligature_only g) table = ligature g table"
  by (simp add: ligature_def unicode_last_only)

lemma ligatures_loop_last_only:
  assumes "\<And>g. res (last_ligature_only g) = res g"
  shows "ligatures_loop res (map last_ligature_only gs) all = ligatures_loop res gs all"
proof (induction gs arbitrary: all)
  case Nil
  show ?case by simp
next
  case (Cons g gs)
  have "ligature_tables_loop k (last_ligature_only g) (ligature_rules (last_ligature_only g)) all
      = ligature_tables_loop k g (ligature_rules g) all" for k
    by (simp add: ligature_tables_loop_last ligature_rules_last_only ligature_last_only)
  then show ?case
    by (simp add: assms Cons.IH split: sum.splits)
qed

lemma smufl_iter_last_only:
  "smufl_iter (f\<lparr>glyphs := map last_ligature_only (glyphs f)\<rparr>)
     = map last_ligature_only (smufl_iter f)"
  by (simp add: smufl_iter_def filter_map o_def unicode_last_only)

lemma canonical_last_only: "canonical tbl (last_ligature_only g) = canonical tbl g"
  by (simp add: canonical_def unicode_last_only)

text \<open>
  Claim C7, as amended.  Whenever \<open>ligatures\<close> returns a table (it does when the
  table names the code point of every glyph of the SMuFL range), its keys are exactly
  the resolved names of the glyphs of the range with at least one \<open>Ligature\<close> rule,
  and for such a glyph (in particular one with two or more such rules) whose
  resolved name no other such glyph shares, the entry under that name holds
  exactly the component names of the last \<open>Ligature\<close> rule of the glyph, together
  with the formatted code point of the glyph.  The table is the same when every glyph
  keeps only its last \<open>Ligature\<close> rule: the component lists of earlier rules are
  recorded nowhere.
\<close>

theorem ligatures_table:
  "(ligatures tbl sf = Inr m \<longrightarrow>
      set (dict_keys m) =
        {k. \<exists>g\<in>set (glyphs (font sf)). in_smufl_range g \<and> ligature_rules g \<noteq> []
              \<and> canonical_glyphname tbl (unicode g) True = Inr k}
      \<and> (\<forall>g\<in>set (glyphs (font sf)). in_smufl_range g \<longrightarrow> ligature_rules g \<noteq> [] \<longrightarrow>
           (\<forall>g'\<in>set (glyphs (font sf)). in_smufl_range g' \<longrightarrow> ligature_rules g' \<noteq> [] \<longrightarrow>
               canonical_glyphname tbl (unicode g') True = canonical_glyphname tbl (unicode g) True
               \<longrightarrow> g' = g) \<longrightarrow>
           (\<exists>k. canonical_glyphname tbl (unicode g) True = Inr k \<and> dict_get m k =
              Some (PDict [(''codepoint'', PStr (format_codepoint (unicode g))),
                           (''componentGlyphs'',
                            PList (map PStr (snd (snd (last (ligature_rules g))))))]))))
   \<and> ligature_rules g = filter (\<lambda>table. fst (snd table) = ''Ligature'') (getPosSub g)
   \<and> ligatures tbl (sf\<lparr>font := (font sf)\<lparr>glyphs := map last_ligature_only (glyphs (font sf))\<rparr>\<rparr>)
       = ligatures tbl sf
   \<and> ((\<forall>g\<in>set (glyphs (font sf)). in_smufl_range g \<longrightarrow> tbl (format_codepoint (unicode g)) \<noteq> None)
        \<longrightarrow> (\<exists>m. ligatures tbl sf = Inr m))"
proof (intro conjI impI)
  assume run: "ligatures tbl sf = Inr m"
  note t = ligatures_loop_table [OF run [unfolded ligatures_def], unfolded canonical_def]
  from t(1) show "set (dict_keys m) =
        {k. \<exists>g\<in>set (glyphs (font sf)). in_smufl_range g \<and> ligature_rules g \<noteq> []
              \<and> canonical_glyphname tbl (unicode g) True = Inr k}" .
  from t(2) show "\<forall>g\<in>set (glyphs (font sf)). in_smufl_range g \<longrightarrow> ligature_rules g \<noteq> [] \<longrightarrow>
           (\<forall>g'\<in>set (glyphs (font sf)). in_smufl_range g' \<longrightarrow> ligature_rules g' \<noteq> [] \<longrightarrow>
               canonical_glyphname tbl (unicode g') True = canonical_glyphname tbl (unicode g) True
               \<longrightarrow> g' = g) \<longrightarrow>
           (\<exists>k. canonical_glyphname tbl (unicode g) True = Inr k \<and> dict_get m k =
              Some (PDict [(''codepoint'', PStr (format_codepoint (unicode g))),
                           (''componentGlyphs'',
                            PList (map PStr (snd (snd (last (ligature_rules g))))))]))" .
next
  show "ligature_rules g = filter (\<lambda>table. fst (snd table) = ''Ligature'') (getPosSub g)"
    by (simp add: ligature_rules_def is_Ligature_def [abs_def])
  show "ligatures tbl (sf\<lparr>font := (font sf)\<lparr>glyphs := map last_ligature_only (glyphs (font sf))\<rparr>\<rparr>)
       = ligatures tbl sf"
    by (simp add: ligatures_def smufl_iter_last_only ligatures_loop_last_only canonical_last_only)
next
  assume named: "\<forall>g\<in>set (glyphs (font sf)). in_smufl_range g
      \<longrightarrow> tbl (format_codepoint (unicode g)) \<noteq> None"
  show "\<exists>m. ligatures tbl sf = Inr m"
    unfolding ligatures_def
  proof (rule ligatures_loop_total_on)
    fix g assume "g \<in> set (smufl_iter (font sf))"
    with named show "\<exists>k. canonical tbl g = Inr k"
      by (intro canonical_total) (simp add: smufl_iter_set)
  qed
qed

lemma example_ligatures:
  "ligatures example_table (smufl_font_of [notehead_ligature]) =
     Inr [(''noteheadBlack'',
           PDict [(''codepoint'', PStr ''U+E000''),
                  (''componentGlyphs'', PList [PStr ''c'', PStr ''d''])])]"
  by (simp add: example_defs table_defs)

lemma example_ligature_rules:
  "ligature_rules notehead_ligature =
     [(''liga-1'', ''Ligature'', [''a'', ''b'']), (''liga-2'', ''Ligature'', [''c'', ''d''])]"
  by (simp add: ligature_rules_def is_Ligature_def example_defs)

theorem ligatures_table_witness:
  "ligatures example_table (smufl_font_of [notehead_ligature]) =
     Inr [(''noteheadBlack'',
           PDict [(''codepoint'', PStr ''U+E000''),
                  (''componentGlyphs'', PList [PStr ''c'', PStr ''d''])])]
   \<and> length (ligature_rules notehead_ligature) = 2
   \<and> (\<exists>k. canonical_glyphname example_table (unicode notehead_ligature) True = Inr k
         \<and> dict_get [(''noteheadBlack'',
                       PDict [(''codepoint'', PStr ''U+E000''),
                              (''componentGlyphs'', PList [PStr ''c'', PStr ''d''])])] k =
             Some (PDict [(''codepoint'', PStr (format_codepoint (unicode notehead_ligature))),
                          (''componentGlyphs'',
                           PList (map PStr (snd (snd (last (ligature_rules notehead_ligature))))))]))
   \<and> (\<exists>m. ligatures example_table (smufl_font_of [notehead_ligature]) = Inr m)"
proof -
  note t = ligatures_table [where tbl = example_table and sf = "smufl_font_of [notehead_ligature]"
      and m = "[(''noteheadBlack'',
           PDict [(''codepoint'', PStr ''U+E000''),
                  (''componentGlyphs'', PList [PStr ''c'', PStr ''d''])])]"]
  have g: "notehead_ligature \<in> set (glyphs (font (smufl_font_of [notehead_ligature])))"
    "in_smufl_range notehead_ligature" "ligature_rules notehead_ligature \<noteq> []"
    by (simp_all add: example_ligature_rules) (simp_all add: example_defs in_smufl_range_def)
  have u: "h = notehead_ligature"
    if "h \<in> set (glyphs (font (smufl_font_of [notehead_ligature])))"
      "in_smufl_range h" "ligature_rules h \<noteq> []"
      "canonical_glyphname example_table (unicode h) True
        = canonical_glyphname example_table (unicode notehead_ligature) True" for h
    using that(1) by (simp add: smufl_font_of_def font_of_def)
  have named: "\<forall>g\<in>set (glyphs (font (smufl_font_of [notehead_ligature]))). in_smufl_range g
      \<longrightarrow> example_table (format_codepoint (unicode g)) \<noteq> None"
    by (simp add: example_defs format_codepoint_E000)
  have len: "length (ligature_rules notehead_ligature) = 2"
    by (simp add: example_ligature_rules)
  note 1 = t [THEN conjunct1, THEN mp, OF example_ligatures, THEN conjunct2, rule_format,
      OF g(1) g(2) g(3) u]
  note 2 = t [THEN conjunct2, THEN conjunct2, THEN conjunct2, THEN mp, OF named]
  show ?thesis
    using example_ligatures len 1 2 by (intro conjI) assumption+
qed

text \<open>
  The claim as stated fails for a glyph outside the SMuFL range (two \<open>Ligature\<close>
  rules, no entry at all) and for two glyphs of the range with the same resolved
  name: the entry holds the last rule of the second glyph, not the last rule
  (\<open>c, d\<close>) of the first.
\<close>

theorem ligatures_table_counterexample:
  "\<not> in_smufl_range fi_ligature
   \<and> ligature_rules fi_ligature =
       [(''liga-1'', ''Ligature'', [''f'', ''i'']), (''liga-2'', ''Ligature'', [''f'', ''dotlessi''])]
   \<and> ligatures example_table (smufl_font_of [fi_ligature]) = Inr []
   \<and> in_smufl_range notehead_ligature
   \<and> ligature_rules notehead_ligature =
       [(''liga-1'', ''Ligature'', [''a'', ''b'']), (''liga-2'', ''Ligature'', [''c'', ''d''])]
   \<and> canonical_glyphname example_table (unicode notehead_ligature) True = Inr ''noteheadBlack''
   \<and> ligatures example_table (smufl_font_of [notehead_ligature, notehead_wide_ligature]) =
       Inr [(''noteheadBlack'',
             PDict [(''codepoint'', PStr ''U+E000''),
                    (''componentGlyphs'', PList [PStr ''g'', PStr ''h''])])]"
  by (simp add: example_defs table_defs in_smufl_range_def)

end
